theory Spec2Isabelle
  imports Complex_Main
begin

section \<open>JavaScript values used by the program\<close>

text \<open>
  Strings are lists of code units; the model keeps to code units below 256, which
  is what \<^typ>\<open>char\<close> holds. Numbers are IEEE doubles in the program. The counts the
  orchestrator keeps are array lengths and sums of them, modelled as \<^typ>\<open>nat\<close>; the
  batch size is an integer-valued number, modelled as \<^typ>\<open>int\<close>. The numeric reading
  of a CSV cell is the built-in \<open>Number\<close>: it is a parameter \<open>toNumber\<close> of the
  parser below, with the type \<open>number\<close> for its results.
\<close>

datatype number = Num rat | Infinity | MinusInfinity | NaN

datatype jsvalue = JSString string | JSNumber number

fun isNaN :: "number \<Rightarrow> bool" where
  "isNaN NaN = True"
| "isNaN _ = False"

text \<open>Truthiness, as \<open>||\<close> tests it; \<open>None\<close> is \<open>undefined\<close>.\<close>

fun truthy :: "jsvalue option \<Rightarrow> bool" where
  "truthy None = False"
| "truthy (Some (JSString s)) = (s \<noteq> [])"
| "truthy (Some (JSNumber (Num r))) = (r \<noteq> 0)"
| "truthy (Some (JSNumber NaN)) = False"
| "truthy (Some (JSNumber _)) = True"

definition isWhiteSpace :: "char \<Rightarrow> bool" where
  "isWhiteSpace c \<longleftrightarrow>
     c \<in> set [CHR 0x09, CHR 0x0A, CHR 0x0B, CHR 0x0C, CHR 0x0D, CHR 0x20, CHR 0xA0]"

definition trim :: "string \<Rightarrow> string" where
  "trim s = rev (dropWhile isWhiteSpace (rev (dropWhile isWhiteSpace s)))"

text \<open>\<open>String.prototype.split\<close> with a separator of one character.\<close>

fun split :: "char \<Rightarrow> string \<Rightarrow> string list" where
  "split sep [] = [[]]"
| "split sep (c # cs) =
     (if c = sep then [] # split sep cs
      else (case split sep cs of [] \<Rightarrow> [[c]] | p # ps \<Rightarrow> (c # p) # ps))"

primrec includes_str :: "string \<Rightarrow> string \<Rightarrow> bool" where
  "includes_str [] t = (t = [])"
| "includes_str (c # cs) t = (take (length t) (c # cs) = t \<or> includes_str cs t)"

definition toLowerCase :: "string \<Rightarrow> string" where
  "toLowerCase s =
     map (\<lambda>c. let n = (of_char c :: nat)
              in if (65 \<le> n \<and> n \<le> 90) \<or> (192 \<le> n \<and> n \<le> 222 \<and> n \<noteq> 215)
                 then char_of (n + 32) else c) s"

text \<open>
  The decimal text of a number, as a template literal prints it. The program prints a
  number of magnitude \<open>10\<^sup>2\<^sup>1\<close> or more with an exponent; only a batch size can be that
  large, and no statement below reads the text of a batch size.
\<close>

function numToString :: "nat \<Rightarrow> string" where
  "numToString n =
     (if n < 10 then [char_of (48 + n)]
      else numToString (n div 10) @ [char_of (48 + n mod 10)])"
  by pat_completeness auto
termination
  by (relation "measure id") auto

definition intToString :: "int \<Rightarrow> string" where
  "intToString i = (if i < 0 then CHR ''-'' # numToString (nat (- i)) else numToString (nat i))"

text \<open>
  \<open>Array.prototype.slice\<close> with integer bounds: a negative bound counts from the
  end, and both are clamped to the array.
\<close>

definition slice :: "'a list \<Rightarrow> int \<Rightarrow> int \<Rightarrow> 'a list" where
  "slice xs start fin =
     (let len = int (length xs);
          k = (if start < 0 then max (len + start) 0 else min start len);
          final = (if fin < 0 then max (len + fin) 0 else min fin len)
      in take (nat (final - k)) (drop (nat k) xs))"

section \<open>utils/dataProcessor.ts\<close>

type_synonym CatalogItem = "string \<rightharpoonup> jsvalue"

text \<open>
  Lines 20 to 26 of \<open>parseCSV\<close>: the cell is trimmed and stored as a number when
  \<open>Number\<close> reads one from it and it is not empty, as a string otherwise. An
  assignment to the key \<open>__proto__\<close> of a plain object with a string or a number
  is ignored by the language.
\<close>

definition cellValue :: "(string \<Rightarrow> number) \<Rightarrow> string \<Rightarrow> jsvalue" where
  "cellValue toNumber cell =
     (let v = trim cell
      in if \<not> isNaN (toNumber v) \<and> v \<noteq> [] then JSNumber (toNumber v) else JSString v)"

definition setProperty :: "string \<Rightarrow> jsvalue \<Rightarrow> CatalogItem \<Rightarrow> CatalogItem" where
  "setProperty key v item = (if key = ''__proto__'' then item else item(key \<mapsto> v))"

text \<open>Lines 17 to 27: \<open>headers.forEach\<close> over a row with as many cells as headers.\<close>

definition buildItem :: "(string \<Rightarrow> number) \<Rightarrow> string list \<Rightarrow> string list \<Rightarrow> CatalogItem" where
  "buildItem toNumber headers currentLine =
     fold (\<lambda>(header, cell) item. setProperty header (cellValue toNumber cell) item)
       (zip headers currentLine) Map.empty"

text \<open>Line 30: \<open>item.id = item.id || `row-${i}`\<close>.\<close>

definition ensureId :: "nat \<Rightarrow> CatalogItem \<Rightarrow> CatalogItem" where
  "ensureId i item =
     item(''id'' \<mapsto>
       (case item ''id'' of
          Some v \<Rightarrow> if truthy (Some v) then v else JSString (''row-'' @ numToString i)
        | None \<Rightarrow> JSString (''row-'' @ numToString i)))"

text \<open>Lines 13 to 32: one pass of the loop body, for the line of index \<open>i\<close>.\<close>

definition parseRow ::
  "(string \<Rightarrow> number) \<Rightarrow> string list \<Rightarrow> string list \<Rightarrow> nat \<Rightarrow> CatalogItem list \<Rightarrow> CatalogItem list" where
  "parseRow toNumber headers lines i data =
     (let currentLine = split CHR '','' (lines ! i)
      in if length currentLine \<noteq> length headers then data
         else data @ [ensureId i (buildItem toNumber headers currentLine)])"

definition parseCSV :: "(string \<Rightarrow> number) \<Rightarrow> string \<Rightarrow> CatalogItem list" where
  "parseCSV toNumber csvText =
     (let lines = split (CHR 0x0A) (trim csvText)
      in if length lines < 2 then []
         else let headers = map trim (split CHR '','' (lines ! 0))
              in fold (parseRow toNumber headers lines) [1..<length lines] [])"

text \<open>
  \<open>chunkArray\<close>: the loop \<open>for (i = 0; i < array.length; i += size)\<close> has no bound on
  the number of its passes, so it is a partial function: \<open>None\<close> is a call that does
  not return.
\<close>

partial_function (option) chunk_loop ::
  "'a list \<Rightarrow> int \<Rightarrow> int \<Rightarrow> 'a list list \<Rightarrow> 'a list list option" where
  "chunk_loop array sz i result =
     (if i < int (length array)
      then chunk_loop array sz (i + sz) (result @ [slice array i (i + sz)])
      else Some result)"

declare chunk_loop.simps [code]

definition chunkArray :: "'a list \<Rightarrow> int \<Rightarrow> 'a list list option" where
  "chunkArray array sz = chunk_loop array sz 0 []"


section \<open>types.ts and constants.ts\<close>

datatype JobStatus = IDLE | RUNNING | COMPLETED | FAILED | PAUSED

datatype LogLevel = INFO | SUCCESS | WARNING | ERROR | SYSTEM

text \<open>
  A log entry without its \<open>id\<close> and \<open>timestamp\<close>, which come from \<open>Math.random\<close>
  and the clock.
\<close>

record LogEntry =
  level :: LogLevel
  message :: string
  step :: string
  hasScreenshot :: bool

datatype SimulationScenario = SCENARIO_SUCCESS | ERROR_VPN | ERROR_AUTH | ERROR_UPLOAD

datatype TargetEnv = ENV_PROD | ENV_STAGING

record AutomationConfig =
  username :: string
  batchSize :: int
  targetEnv :: TargetEnv
  simulationScenario :: SimulationScenario

record JobStats =
  totalRecords :: nat
  processedRecords :: nat
  successCount :: nat
  errorCount :: nat
  batchesTotal :: nat
  batchesCompleted :: nat

definition URLS_LOGIN :: string where
  "URLS_LOGIN = ''https://withpassion.decathlon.net/rank2/control/login''"

definition DEFAULT_BATCH_SIZE :: int where
  "DEFAULT_BATCH_SIZE = 500"

section \<open>The state of the App component and its setters\<close>

text \<open>
  What a run does to the component is the sequence of its calls to the state setters,
  to \<open>alert\<close> and to the three phases of \<open>services/automationMock.ts\<close>: the field
  \<open>trace\<close> keeps that sequence, in program order, beside the current values of the
  React state and of \<open>stopRef.current\<close>.
\<close>

datatype effect =
    Alert string
  | SetLogs "LogEntry list"
  | SetStatus JobStatus
  | SetStats JobStats
  | AddLog LogEntry
  | CallLogin
  | CallNavigation
  | CallUploadBatch nat nat

record world =
  status :: JobStatus
  logs :: "LogEntry list"
  stats :: JobStats
  stopRef :: bool
  trace :: "effect list"

definition alert :: "string \<Rightarrow> world \<Rightarrow> world" where
  "alert msg w = w\<lparr>trace := trace w @ [Alert msg]\<rparr>"

definition setLogs :: "LogEntry list \<Rightarrow> world \<Rightarrow> world" where
  "setLogs v w = w\<lparr>logs := v, trace := trace w @ [SetLogs v]\<rparr>"

definition setStatus :: "JobStatus \<Rightarrow> world \<Rightarrow> world" where
  "setStatus v w = w\<lparr>status := v, trace := trace w @ [SetStatus v]\<rparr>"

text \<open>\<open>setStats\<close> with an updater function; \<open>setStats({...})\<close> is a constant updater.\<close>

definition setStats :: "(JobStats \<Rightarrow> JobStats) \<Rightarrow> world \<Rightarrow> world" where
  "setStats f w = w\<lparr>stats := f (stats w), trace := trace w @ [SetStats (f (stats w))]\<rparr>"

definition addLog :: "string \<Rightarrow> LogLevel \<Rightarrow> string \<Rightarrow> bool \<Rightarrow> world \<Rightarrow> world" where
  "addLog msg lvl stp shot w =
     (let entry = \<lparr>level = lvl, message = msg, step = stp, hasScreenshot = shot\<rparr>
      in w\<lparr>logs := logs w @ [entry], trace := trace w @ [AddLog entry]\<rparr>)"

definition call :: "effect \<Rightarrow> world \<Rightarrow> world" where
  "call c w = w\<lparr>trace := trace w @ [c]\<rparr>"

text \<open>\<open>handleStop\<close> and \<open>handleReset\<close>, in the browser (no \<open>window.electronAPI\<close>).\<close>

definition handleStop :: "world \<Rightarrow> world" where
  "handleStop w = w\<lparr>stopRef := True\<rparr>"

definition handleReset :: "world \<Rightarrow> world" where
  "handleReset w =
     setStats (\<lambda>_. \<lparr>totalRecords = 0, processedRecords = 0, successCount = 0,
                     errorCount = 0, batchesTotal = 0, batchesCompleted = 0\<rparr>)
       (setLogs [] (setStatus IDLE w))"

text \<open>
  The environment of a run. While \<open>runAutomation\<close> is suspended in an \<open>await\<close> the
  only control shown is the Stop button: \<open>stopClicked e c\<close> tells whether
  \<open>handleStop\<close> ran during the awaits that precede the read number \<open>c\<close> of
  \<open>stopRef.current\<close> (read 0 follows the login, read 1 the navigation, read
  \<open>i + 2\<close> the pass \<open>i\<close> of the batch loop). \<open>randomFailure e b\<close> is the outcome of
  \<open>Math.random() < 0.01\<close> in the upload of batch \<open>b\<close>. A fetch of the sheet that
  was started before the run can still add its own entries to the log while the run is
  suspended; the model leaves it out.
\<close>

record env =
  stopClicked :: "nat \<Rightarrow> bool"
  randomFailure :: "nat \<Rightarrow> bool"

definition awaiting :: "env \<Rightarrow> nat \<Rightarrow> world \<Rightarrow> world" where
  "awaiting e c w = (if stopClicked e c then handleStop w else w)"

section \<open>services/automationMock.ts\<close>

definition simulateLogin ::
  "string \<Rightarrow> string \<Rightarrow> SimulationScenario \<Rightarrow>
   (string \<Rightarrow> LogLevel \<Rightarrow> string \<Rightarrow> bool \<Rightarrow> 'w \<Rightarrow> 'w) \<Rightarrow> 'w \<Rightarrow> bool \<times> 'w" where
  "simulateLogin user password scenario addLog' w0 =
     (let w1 = addLog' ''Navigating to https://withpassion.decathlon.net/rank2/control/login''
                 INFO ''LOGIN'' False w0
      in if scenario = ERROR_VPN then
           let w2 = addLog' ''Network Error: Host unreachable.'' ERROR ''NET'' False w1;
               w3 = addLog' ''CRITICAL: Corporate VPN connection not detected. Please connect to GlobalProtect and retry.''
                      ERROR ''SYS'' False w2
           in (False, w3)
         else
           let w2 = addLog' (''Checking credentials for user: '' @ user) INFO ''AUTH'' False w1;
               isInvalidPassword =
                 (length password < 4 \<or>
                  list_ex (\<lambda>s. includes_str (toLowerCase password) s)
                    [''wrong'', ''error'', ''fail'', ''invalid''])
           in if scenario = ERROR_AUTH \<or> includes_str user ''error'' \<or> isInvalidPassword then
                let w3 = addLog' ''Authentication failed: Invalid credentials or Account Locked.''
                           ERROR ''AUTH'' True w2;
                    w4 = addLog' (''(Simulation Tip: Avoid using passwords containing '' @ [CHR 0x22]
                              @ ''wrong'' @ [CHR 0x22] @ '' or '' @ [CHR 0x22] @ ''error''
                              @ [CHR 0x22] @ '' for the Happy Path)'')
                           SYSTEM ''AUTH'' False w3
                in (False, w4)
              else (True, addLog' ''Login successful. Dashboard loaded.'' SUCCESS ''AUTH'' True w2))"

definition simulateNavigation ::
  "(string \<Rightarrow> LogLevel \<Rightarrow> string \<Rightarrow> bool \<Rightarrow> 'w \<Rightarrow> 'w) \<Rightarrow> 'w \<Rightarrow> 'w" where
  "simulateNavigation addLog' w0 =
     (let w1 = addLog' ''Accessing Main Dashboard...'' INFO ''NAV'' False w0;
          w2 = addLog' ''Clicking 'Rank 2' tab'' INFO ''NAV'' False w1;
          w3 = addLog' ''Clicking 'Catalog' sub-menu'' INFO ''NAV'' False w2
      in addLog' ''Catalog Control Panel loaded. Ready for input.'' SUCCESS ''NAV'' False w3)"

definition simulateUploadBatch ::
  "env \<Rightarrow> nat \<Rightarrow> nat \<Rightarrow> SimulationScenario \<Rightarrow>
   (string \<Rightarrow> LogLevel \<Rightarrow> string \<Rightarrow> bool \<Rightarrow> 'w \<Rightarrow> 'w) \<Rightarrow> 'w \<Rightarrow> bool \<times> 'w" where
  "simulateUploadBatch e batchId recordCount scenario addLog' w0 =
     (let tag = ''BATCH-'' @ numToString batchId;
          w1 = addLog' (''Preparing Batch #'' @ numToString batchId @ '' ('' @ numToString recordCount
                    @ '' records)...'') INFO tag False w0;
          w2 = addLog' ''Converting JSON to .xlsx format for upload'' SYSTEM tag False w1;
          w3 = addLog' ''Locating 'Choose File' input field...'' SYSTEM tag False w2;
          w4 = addLog' (''Selecting file: batch_'' @ numToString batchId @ ''.xlsx'') INFO tag False w3;
          w5 = addLog' ''Clicking 'UPDATE' button to initiate upload...'' INFO tag False w4
      in if scenario = ERROR_UPLOAD \<or> randomFailure e batchId then
           let w6 = addLog' (''Server responded with 500 Internal Error on Batch #'' @ numToString batchId)
                      ERROR tag False w5;
               w7 = addLog' (''Retrying Batch #'' @ numToString batchId @ '' (Attempt 1/3)...'')
                      WARNING tag False w6;
               w8 = addLog' ''Retry failed. Skipping batch to maintain workflow stability.''
                      ERROR tag False w7
           in (False, w8)
         else (True, addLog' (''Batch #'' @ numToString batchId
                          @ '' upload confirmed. Status: Pending Processing'') SUCCESS tag False w5))"

section \<open>App.tsx: runAutomation\<close>

text \<open>
  The model is the browser simulation, the path of \<open>runAutomation\<close> taken when
  \<open>window.electronAPI\<close> is undefined (lines 150 to 168 and 190 to 250). With the
  Electron bridge present, lines 170 to 188 hand the job over to the main process and
  return; that path calls none of the three mock phases.
\<close>

text \<open>Lines 166, 167 and 191 to 194.\<close>

definition startRun :: "world \<Rightarrow> world" where
  "startRun w0 =
     (let w1 = setLogs [] w0;
          w2 = setStatus RUNNING w1;
          w3 = w2\<lparr>stopRef := False\<rparr>;
          w4 = addLog ''Initializing Automation Agent v1.0 (Simulation Mode)...'' SYSTEM ''INIT'' False w3
      in addLog (''Target URL: '' @ URLS_LOGIN) INFO ''INIT'' False w4)"

text \<open>Lines 197 to 207.\<close>

definition initStats :: "AutomationConfig \<Rightarrow> 'a list \<Rightarrow> 'a list list \<Rightarrow> world \<Rightarrow> world" where
  "initStats config parsedData batches w0 =
     (let w1 = setStats (\<lambda>_. \<lparr>totalRecords = length parsedData, processedRecords = 0,
                               successCount = 0, errorCount = 0,
                               batchesTotal = length batches, batchesCompleted = 0\<rparr>) w0;
          w2 = addLog (''Data parsed successfully. '' @ numToString (length parsedData)
                       @ '' records found.'') SUCCESS ''DATA'' False w1
      in addLog (''Split into '' @ numToString (length batches) @ '' batch(es) of max ''
                 @ intToString (batchSize config) @ '' records.'') INFO ''DATA'' False w2)"

text \<open>
  Lines 231 to 245: one pass of the batch loop once the stop flag was read unset. The
  flag is read next at the top of the following pass, so the one \<open>awaiting\<close> at the
  end stands for both awaits of the pass, the upload and the wait of two seconds.
\<close>

definition batchPass ::
  "env \<Rightarrow> AutomationConfig \<Rightarrow> 'a list list \<Rightarrow> nat \<Rightarrow> nat \<Rightarrow> world \<Rightarrow> world" where
  "batchPass e config batches i processedTotal w0 =
     (let n = length (batches ! i);
          (batchSuccess, w1) =
             simulateUploadBatch e (i + 1) n (simulationScenario config) addLog
               (call (CallUploadBatch (i + 1) n) w0);
          w2 = setStats (\<lambda>prev. prev\<lparr>processedRecords := processedTotal + n,
                                      batchesCompleted := i + 1,
                                      successCount := (if batchSuccess then successCount prev + n
                                                       else successCount prev),
                                      errorCount := (if \<not> batchSuccess then errorCount prev + n
                                                     else errorCount prev)\<rparr>) w1;
          w3 = (if int i < int (length batches) - 1
                then addLog ''Waiting 2s before next batch to ensure stability...'' SYSTEM ''WAIT'' False w2
                else w2)
      in awaiting e (i + 2) w3)"

text \<open>
  Lines 224 to 246. \<open>Inl\<close> is the \<open>return\<close> of line 228, which leaves
  \<open>runAutomation\<close>; \<open>Inr\<close> is the loop running to its end.
\<close>

function batchLoop ::
  "env \<Rightarrow> AutomationConfig \<Rightarrow> 'a list list \<Rightarrow> nat \<Rightarrow> nat \<Rightarrow> world \<Rightarrow> world + world" where
  "batchLoop e config batches i processedTotal w =
     (if i < length batches then
        if stopRef w then
          Inl (setStatus PAUSED (addLog ''Job stopped by user.'' WARNING ''STOP'' False w))
        else batchLoop e config batches (i + 1) (processedTotal + length (batches ! i))
               (batchPass e config batches i processedTotal w)
      else Inr w)"
  by pat_completeness auto
termination
  by (relation "measure (\<lambda>(e, config, batches, i, processedTotal, w). length batches - i)") auto

definition runAutomation ::
  "(string \<Rightarrow> number) \<Rightarrow> env \<Rightarrow> AutomationConfig \<Rightarrow> string \<Rightarrow> string \<Rightarrow> world \<Rightarrow> world option" where
  "runAutomation toNumber e config password rawData w0 =
     (if username config = [] \<or> password = [] then
        Some (alert ''Please enter credentials first.'' w0)
      else if trim rawData = [] then
        Some (alert ''Please load or enter data to process.'' w0)
      else
        let parsedData = parseCSV toNumber rawData
        in if length parsedData = 0 then Some (alert ''No valid data found.'' w0)
           else
             let w1 = startRun w0
             in case chunkArray parsedData (batchSize config) of
                  None \<Rightarrow> None
                | Some batches \<Rightarrow>
                    let w2 = initStats config parsedData batches w1
                    in if stopRef w2 then Some w2
                       else
                         let (loginSuccess, w3) =
                               simulateLogin (username config) password (simulationScenario config)
                                 addLog (call CallLogin w2);
                             w4 = awaiting e 0 w3
                         in if \<not> loginSuccess then Some (setStatus FAILED w4)
                            else if stopRef w4 then Some w4
                            else
                              let w5 = awaiting e 1 (simulateNavigation addLog (call CallNavigation w4))
                              in case batchLoop e config batches 0 0 w5 of
                                   Inl w6 \<Rightarrow> Some w6
                                 | Inr w6 \<Rightarrow>
                                     Some (setStatus COMPLETED
                                            (addLog ''All batches processed.'' SUCCESS ''DONE'' False w6)))"


section \<open>The earlier App component (src/unnamed/part\_000 and part\_002)\<close>

text \<open>
  The repository also holds an earlier \<open>runAutomation\<close>, with the earlier mock
  phases it calls. Its configuration has no scenario: the field
  \<open>simulationScenario\<close> of the record is not read.
\<close>

definition simulateLogin_part002 ::
  "string \<Rightarrow> (string \<Rightarrow> LogLevel \<Rightarrow> string \<Rightarrow> bool \<Rightarrow> 'w \<Rightarrow> 'w) \<Rightarrow> 'w \<Rightarrow> bool \<times> 'w" where
  "simulateLogin_part002 user addLog' w0 =
     (let w1 = addLog' ''Navigating to https://withpassion.decathlon.net/rank2/control/login''
                 INFO ''LOGIN'' False w0;
          w2 = addLog' (''Checking credentials for user: '' @ user) INFO ''AUTH'' False w1
      in if includes_str user ''error'' then
           (False, addLog' ''Authentication failed: Invalid credentials'' ERROR ''AUTH'' True w2)
         else (True, addLog' ''Login successful. Dashboard loaded.'' SUCCESS ''AUTH'' True w2))"

definition simulateUploadBatch_part002 ::
  "env \<Rightarrow> nat \<Rightarrow> nat \<Rightarrow> (string \<Rightarrow> LogLevel \<Rightarrow> string \<Rightarrow> bool \<Rightarrow> 'w \<Rightarrow> 'w) \<Rightarrow> 'w \<Rightarrow> bool \<times> 'w" where
  "simulateUploadBatch_part002 e batchId recordCount addLog' w0 =
     (let tag = ''BATCH-'' @ numToString batchId;
          w1 = addLog' (''Preparing Batch #'' @ numToString batchId @ '' ('' @ numToString recordCount
                    @ '' records)...'') INFO tag False w0;
          w2 = addLog' ''Converting JSON to .xlsx format for upload'' SYSTEM tag False w1;
          w3 = addLog' ''Locating 'Choose File' input field...'' SYSTEM tag False w2;
          w4 = addLog' (''Selecting file: batch_'' @ numToString batchId @ ''.xlsx'') INFO tag False w3;
          w5 = addLog' ''Clicking 'UPDATE' button to initiate upload...'' INFO tag False w4
      in if randomFailure e batchId then
           (False, addLog' (''Server responded with 500 Internal Error on Batch #''
                            @ numToString batchId) ERROR tag False w5)
         else (True, addLog' (''Batch #'' @ numToString batchId
                          @ '' upload confirmed. Status: Pending Processing'') SUCCESS tag False w5))"

text \<open>Lines 123 to 129 of part\_000.\<close>

definition startRun_part000 :: "world \<Rightarrow> world" where
  "startRun_part000 w0 =
     (let w1 = setStatus RUNNING w0;
          w2 = setLogs [] w1;
          w3 = w2\<lparr>stopRef := False\<rparr>;
          w4 = addLog ''Initializing Automation Agent v1.0...'' SYSTEM ''INIT'' False w3
      in addLog (''Target URL: '' @ URLS_LOGIN) INFO ''INIT'' False w4)"

definition batchPass_part000 ::
  "env \<Rightarrow> 'a list list \<Rightarrow> nat \<Rightarrow> nat \<Rightarrow> world \<Rightarrow> world" where
  "batchPass_part000 e batches i processedTotal w0 =
     (let n = length (batches ! i);
          (batchSuccess, w1) =
             simulateUploadBatch_part002 e (i + 1) n addLog (call (CallUploadBatch (i + 1) n) w0);
          w2 = setStats (\<lambda>prev. prev\<lparr>processedRecords := processedTotal + n,
                                      batchesCompleted := i + 1,
                                      successCount := (if batchSuccess then successCount prev + n
                                                       else successCount prev),
                                      errorCount := (if \<not> batchSuccess then errorCount prev + n
                                                     else errorCount prev)\<rparr>) w1;
          w3 = (if int i < int (length batches) - 1
                then addLog ''Waiting 2s before next batch to ensure stability...'' SYSTEM ''WAIT'' False w2
                else w2)
      in awaiting e (i + 2) w3)"

function batchLoop_part000 ::
  "env \<Rightarrow> 'a list list \<Rightarrow> nat \<Rightarrow> nat \<Rightarrow> world \<Rightarrow> world + world" where
  "batchLoop_part000 e batches i processedTotal w =
     (if i < length batches then
        if stopRef w then
          Inl (setStatus PAUSED (addLog ''Job stopped by user.'' WARNING ''STOP'' False w))
        else batchLoop_part000 e batches (i + 1) (processedTotal + length (batches ! i))
               (batchPass_part000 e batches i processedTotal w)
      else Inr w)"
  by pat_completeness auto
termination
  by (relation "measure (\<lambda>(e, batches, i, processedTotal, w). length batches - i)") auto

definition runAutomation_part000 ::
  "(string \<Rightarrow> number) \<Rightarrow> env \<Rightarrow> AutomationConfig \<Rightarrow> string \<Rightarrow> string \<Rightarrow> world \<Rightarrow> world option" where
  "runAutomation_part000 toNumber e config password rawData w0 =
     (if username config = [] \<or> password = [] then
        Some (alert ''Please enter credentials first.'' w0)
      else if trim rawData = [] then
        Some (alert ''Please load or enter data to process.'' w0)
      else
        let w1 = startRun_part000 w0;
            parsedData = parseCSV toNumber rawData
        in if length parsedData = 0 then
             Some (setStatus FAILED
                    (addLog ''Failed to parse CSV data. Check format.'' ERROR ''DATA'' False w1))
           else
             case chunkArray parsedData (batchSize config) of
               None \<Rightarrow> None
             | Some batches \<Rightarrow>
                 let w2 = initStats config parsedData batches w1
                 in if stopRef w2 then Some w2
                    else
                      let (loginSuccess, w3) =
                            simulateLogin_part002 (username config) addLog (call CallLogin w2);
                          w4 = awaiting e 0 w3
                      in if \<not> loginSuccess then Some (setStatus FAILED w4)
                         else if stopRef w4 then Some w4
                         else
                           let w5 = awaiting e 1 (simulateNavigation addLog (call CallNavigation w4))
                           in case batchLoop_part000 e batches 0 0 w5 of
                                Inl w6 \<Rightarrow> Some w6
                              | Inr w6 \<Rightarrow>
                                  Some (setStatus COMPLETED
                                         (addLog ''Generating Final Report...'' INFO ''DONE'' False
                                           (addLog ''All batches processed.'' SUCCESS ''DONE'' False w6))))"

section \<open>Observations on a run\<close>

text \<open>The statistics snapshots, the status changes and the upload calls of a trace.\<close>

fun snapshots :: "effect list \<Rightarrow> JobStats list" where
  "snapshots [] = []"
| "snapshots (SetStats s # es) = s # snapshots es"
| "snapshots (_ # es) = snapshots es"

fun transitions :: "effect list \<Rightarrow> JobStatus list" where
  "transitions [] = []"
| "transitions (SetStatus s # es) = s # transitions es"
| "transitions (_ # es) = transitions es"

fun uploads :: "effect list \<Rightarrow> (nat \<times> nat) list" where
  "uploads [] = []"
| "uploads (CallUploadBatch b n # es) = (b, n) # uploads es"
| "uploads (_ # es) = uploads es"

fun navigations :: "effect list \<Rightarrow> nat" where
  "navigations [] = 0"
| "navigations (CallNavigation # es) = Suc (navigations es)"
| "navigations (_ # es) = navigations es"

text \<open>
  The mock phases reach the log only through the \<open>addLog\<close> they are given. Run
  with \<open>collect\<close> they return the entries they emit, and \<open>loginSucceeds\<close> is
  the value \<open>simulateLogin\<close> returns.
\<close>

definition collect :: "string \<Rightarrow> LogLevel \<Rightarrow> string \<Rightarrow> bool \<Rightarrow> LogEntry list \<Rightarrow> LogEntry list" where
  "collect msg lvl stp shot es =
     es @ [\<lparr>level = lvl, message = msg, step = stp, hasScreenshot = shot\<rparr>]"

definition appendLogs :: "LogEntry list \<Rightarrow> world \<Rightarrow> world" where
  "appendLogs es w = w\<lparr>logs := logs w @ es, trace := trace w @ map AddLog es\<rparr>"

definition loginSucceeds :: "string \<Rightarrow> string \<Rightarrow> SimulationScenario \<Rightarrow> bool" where
  "loginSucceeds user password scenario = fst (simulateLogin user password scenario collect [])"

definition loginEntries :: "string \<Rightarrow> string \<Rightarrow> SimulationScenario \<Rightarrow> LogEntry list" where
  "loginEntries user password scenario = snd (simulateLogin user password scenario collect [])"

definition navigationEntries :: "LogEntry list" where
  "navigationEntries = simulateNavigation collect []"

definition uploadSucceeds :: "env \<Rightarrow> nat \<Rightarrow> nat \<Rightarrow> SimulationScenario \<Rightarrow> bool" where
  "uploadSucceeds e batchId recordCount scenario =
     fst (simulateUploadBatch e batchId recordCount scenario collect [])"

definition uploadEntries :: "env \<Rightarrow> nat \<Rightarrow> nat \<Rightarrow> SimulationScenario \<Rightarrow> LogEntry list" where
  "uploadEntries e batchId recordCount scenario =
     snd (simulateUploadBatch e batchId recordCount scenario collect [])"

text \<open>
  What holds of the loop variables and the statistics at the top of pass \<open>i\<close> of
  the batch loop.
\<close>

definition loopInvariant :: "'a list list \<Rightarrow> nat \<Rightarrow> nat \<Rightarrow> JobStats \<Rightarrow> bool" where
  "loopInvariant batches i processedTotal s \<longleftrightarrow>
     i \<le> length batches \<and>
     processedTotal = sum_list (map length (take i batches)) \<and>
     processedRecords s = processedTotal \<and>
     successCount s + errorCount s = processedTotal \<and>
     batchesCompleted s = i \<and>
     batchesTotal s = length batches \<and>
     totalRecords s = sum_list (map length batches)"

text \<open>The entry of line 243, logged between two batches.\<close>

definition waitEntries :: "'a list list \<Rightarrow> nat \<Rightarrow> LogEntry list" where
  "waitEntries batches i =
     (if int i < int (length batches) - 1
      then [\<lparr>level = SYSTEM, message = ''Waiting 2s before next batch to ensure stability...'',
              step = ''WAIT'', hasScreenshot = False\<rparr>]
      else [])"




section \<open>Example inputs\<close>

text \<open>
  \<open>Number\<close> on the cells of the examples: a string of decimal digits reads as that
  integer (the empty string as 0), and the other cells of the examples are words
  without a numeric reading.
\<close>

definition exampleNumber :: "string \<Rightarrow> number" where
  "exampleNumber s =
     (if list_all (\<lambda>c. (48::nat) \<le> of_char c \<and> of_char c \<le> (57::nat)) s
      then Num (of_nat (foldl (\<lambda>a c. 10 * a + (of_char c - 48)) (0::nat) s))
      else NaN)"

definition exampleCsv :: string where
  "exampleCsv = ''id,name'' @ [CHR 0x0A] @ ''7,shoe'' @ [CHR 0x0A] @ ''0,hat''
                @ [CHR 0x0A] @ ''bad'' @ [CHR 0x0A] @ '',cap'' @ [CHR 0x0A]"

text \<open>A header line and no data row: not blank, and parsed to no record.\<close>

definition headerOnlyCsv :: string where
  "headerOnlyCsv = ''id,name''"

definition idleWorld :: world where
  "idleWorld = \<lparr>status = IDLE, logs = [],
                stats = \<lparr>totalRecords = 0, processedRecords = 0, successCount = 0,
                         errorCount = 0, batchesTotal = 0, batchesCompleted = 0\<rparr>,
                stopRef = False, trace = []\<rparr>"

definition exampleConfig :: AutomationConfig where
  "exampleConfig = \<lparr>username = ''bob'', batchSize = 2, targetEnv = ENV_PROD,
                    simulationScenario = SCENARIO_SUCCESS\<rparr>"

text \<open>No click on Stop; the upload of batch 2 fails at random.\<close>

definition quietEnv :: env where
  "quietEnv = \<lparr>stopClicked = (\<lambda>_. False), randomFailure = (\<lambda>b. b = 2)\<rparr>"

definition rejectedPassword :: string where
  "rejectedPassword = ''wrong-pass''"

text \<open>The batch size field cleared: \<open>Number('')\<close> is 0.\<close>

definition zeroSizeConfig :: AutomationConfig where
  "zeroSizeConfig = exampleConfig\<lparr>batchSize := 0\<rparr>"

definition vpnConfig :: AutomationConfig where
  "vpnConfig = exampleConfig\<lparr>simulationScenario := ERROR_VPN\<rparr>"

text \<open>Stop is clicked while the first batch is uploaded.\<close>

definition stopEnv :: env where
  "stopEnv = \<lparr>stopClicked = (\<lambda>c. c = 2), randomFailure = (\<lambda>_. False)\<rparr>"

section \<open>chunkArray\<close>

lemma slice_in_range:
  assumes "0 \<le> i" "i < int (length xs)" "0 < sz"
  shows "slice xs i (i + sz) = take (nat sz) (drop (nat i) xs)"
proof -
  have "take (nat (min (i + sz) (int (length xs)) - i)) (drop (nat i) xs)
        = take (nat sz) (drop (nat i) xs)"
  proof (cases "i + sz \<le> int (length xs)")
    case True
    then show ?thesis by (simp add: min_def)
  next
    case False
    then have "length (drop (nat i) xs) \<le> nat (int (length xs) - i)"
      and "length (drop (nat i) xs) \<le> nat sz"
      using assms by auto
    with False show ?thesis by (simp add: min_def)
  qed
  with assms show ?thesis by (simp add: slice_def Let_def min_def)
qed

lemma chunk_loop_returns:
  assumes "0 < sz"
  shows "0 \<le> i \<Longrightarrow> \<exists>bs. chunk_loop xs sz i acc = Some (acc @ bs)
           \<and> concat bs = drop (nat i) xs
           \<and> int (length bs) =
               (if i < int (length xs) then - ((- (int (length xs) - i)) div sz) else 0)"
proof (induction "nat (int (length xs) - i)" arbitrary: i acc rule: less_induct)
  case less
  show ?case
  proof (cases "i < int (length xs)")
    case False
    then show ?thesis
      by (subst chunk_loop.simps) simp
  next
    case True
    let ?b = "slice xs i (i + sz)"
    have b: "?b = take (nat sz) (drop (nat i) xs)"
      using less.prems True assms by (rule slice_in_range)
    have "nat (int (length xs) - (i + sz)) < nat (int (length xs) - i)"
      using True assms by simp
    moreover have "0 \<le> i + sz" using less.prems assms by simp
    ultimately obtain bs where bs: "chunk_loop xs sz (i + sz) (acc @ [?b]) = Some ((acc @ [?b]) @ bs)"
      "concat bs = drop (nat (i + sz)) xs"
      "int (length bs) =
         (if i + sz < int (length xs) then - ((- (int (length xs) - (i + sz))) div sz) else 0)"
      using less.hyps by blast
    have 1: "chunk_loop xs sz i acc = Some (acc @ (?b # bs))"
      using True bs(1) by (subst chunk_loop.simps) simp
    have "nat (i + sz) = nat sz + nat i" using less.prems assms by simp
    then have 2: "concat (?b # bs) = drop (nat i) xs"
      using bs(2) b by (simp add: drop_drop [symmetric] del: drop_drop)
    have 3: "int (length (?b # bs)) = - ((- (int (length xs) - i)) div sz)"
    proof (cases "i + sz < int (length xs)")
      case True
      have "- (int (length xs) - i) = - (int (length xs) - (i + sz)) + (-1) * sz" by simp
      then have "(- (int (length xs) - i)) div sz = (- (int (length xs) - (i + sz))) div sz - 1"
        using assms by (metis div_mult_self1 less_irrefl uminus_add_conv_diff)
      with True bs(3) show ?thesis by simp
    next
      case False
      with True assms have "- sz \<le> (- (int (length xs) - i))" "(- (int (length xs) - i)) < 0"
        by auto
      then have "(- (int (length xs) - i)) div sz = -1"
        using assms by (intro int_div_pos_eq [where r = "sz - (int (length xs) - i)"]) auto
      with False bs(3) show ?thesis by simp
    qed
    from 1 2 3 True show ?thesis by (intro exI [of _ "?b # bs"]) simp
  qed
qed

lemma chunk_loop_stuck:
  assumes ret: "chunk_loop xs sz i acc = Some y"
  shows "sz \<le> 0 \<longrightarrow> \<not> i < int (length xs)"
proof (rule chunk_loop.raw_induct
    [where P = "\<lambda>xs sz i acc y. sz \<le> 0 \<longrightarrow> \<not> i < int (length xs)", OF _ ret])
  fix f :: "'a list \<Rightarrow> int \<Rightarrow> int \<Rightarrow> 'a list list \<Rightarrow> 'a list list option"
    and array sz i result y
  assume IH: "\<And>a b c d y. f a b c d = Some y \<Longrightarrow> b \<le> 0 \<longrightarrow> \<not> c < int (length a)"
    and eq: "(if i < int (length array)
              then f array sz (i + sz) (result @ [slice array i (i + sz)])
              else Some result) = Some y"
  show "sz \<le> 0 \<longrightarrow> \<not> i < int (length array)"
  proof (intro impI notI)
    assume sz: "sz \<le> 0" and i: "i < int (length array)"
    with eq have "f array sz (i + sz) (result @ [slice array i (i + sz)]) = Some y"
      by simp
    then have "sz \<le> 0 \<longrightarrow> \<not> i + sz < int (length array)" by (rule IH)
    with sz i show False by simp
  qed
qed

lemma chunkArray_empty: "chunkArray [] sz = Some []"
  unfolding chunkArray_def by (subst chunk_loop.simps) simp

lemma chunkArray_never_returns:
  assumes "sz \<le> 0" "xs \<noteq> []"
  shows "chunkArray xs sz = None"
proof (cases "chunkArray xs sz")
  case (Some y)
  then show ?thesis
    using chunk_loop_stuck [of xs sz 0 "[]" y] assms by (simp add: chunkArray_def)
qed simp

lemma chunkArray_returns:
  assumes "0 < sz"
  shows "\<exists>bs. chunkArray xs sz = Some bs
          \<and> int (length bs) = - ((- int (length xs)) div sz)
          \<and> concat bs = xs"
proof -
  obtain bs where bs: "chunk_loop xs sz 0 [] = Some ([] @ bs)" "concat bs = drop (nat 0) xs"
    "int (length bs) = (if 0 < int (length xs) then - ((- (int (length xs) - 0)) div sz) else 0)"
    using chunk_loop_returns [OF assms, of 0 xs "[]"] by blast
  have "int (length bs) = - ((- int (length xs)) div sz)"
    using bs(3) by (cases "xs = []") auto
  with bs(1,2) show ?thesis by (simp add: chunkArray_def)
qed

lemma chunkArray_Some:
  assumes "chunkArray xs sz = Some bs" "xs \<noteq> []"
  shows "0 < sz \<and> concat bs = xs \<and> bs \<noteq> []"
proof -
  have sz: "0 < sz"
    using assms chunkArray_never_returns [of sz xs] by (cases "0 < sz") auto
  from chunkArray_returns [OF sz, of xs] assms(1) have "concat bs = xs" by auto
  with assms(2) sz show ?thesis by auto
qed

text \<open>
  \<^bold>\<open>C1.\<close> For every record sequence of length \<open>N\<close> and every integer batch size
  above 0, \<open>chunkArray\<close> returns, and its result has \<open>\<lceil>N / size\<rceil>\<close> batches, whose lengths
  sum to \<open>N\<close> and whose concatenation in order is the record sequence; the empty
  sequence gives the empty batch sequence. The result is a function of the two
  arguments alone.
\<close>

theorem chunkArray_partitions:
  assumes "0 < sz"
  shows "\<exists>bs. chunkArray xs sz = Some bs
          \<and> int (length bs) = \<lceil>real (length xs) / real_of_int sz\<rceil>
          \<and> sum_list (map length bs) = length xs
          \<and> concat bs = xs
          \<and> chunkArray ([] :: 'a list) sz = Some []"
proof -
  obtain bs where bs: "chunkArray xs sz = Some bs"
    "int (length bs) = - ((- int (length xs)) div sz)" "concat bs = xs"
    using chunkArray_returns [OF assms] by blast
  have "- ((- int (length xs)) div sz) = \<lceil>real_of_int (int (length xs)) / real_of_int sz\<rceil>"
    by (simp only: ceiling_divide_eq_div)
  with bs(2) have "int (length bs) = \<lceil>real (length xs) / real_of_int sz\<rceil>" by simp
  moreover have "sum_list (map length bs) = length xs"
    using bs(3) by (metis length_concat)
  ultimately show ?thesis using bs(1,3) chunkArray_empty by blast
qed

theorem chunkArray_partitions_witness:
  "(0::int) < 2
   \<and> chunkArray [10, 20, 30, 40, 50 :: nat] 2 = Some [[10, 20], [30, 40], [50]]
   \<and> int (length [[10, 20], [30, 40], [50 :: nat]]) = \<lceil>real (length [10, 20, 30, 40, 50 :: nat]) / real_of_int 2\<rceil>"
proof -
  have h: "(0::int) < 2" by simp
  have c: "chunkArray [10, 20, 30, 40, 50 :: nat] 2 = Some [[10, 20], [30, 40], [50]]"
    by code_simp
  from chunkArray_partitions [OF h, of "[10, 20, 30, 40, 50 :: nat]"] c h
  show ?thesis by auto
qed

section \<open>parseCSV\<close>












section \<open>The setters\<close>

lemma alert_fields [simp]:
  "status (alert m w) = status w" "logs (alert m w) = logs w" "stats (alert m w) = stats w"
  "stopRef (alert m w) = stopRef w" "trace (alert m w) = trace w @ [Alert m]"
  by (simp_all add: alert_def)

lemma setLogs_fields [simp]:
  "status (setLogs v w) = status w" "logs (setLogs v w) = v" "stats (setLogs v w) = stats w"
  "stopRef (setLogs v w) = stopRef w" "trace (setLogs v w) = trace w @ [SetLogs v]"
  by (simp_all add: setLogs_def)

lemma setStatus_fields [simp]:
  "status (setStatus v w) = v" "logs (setStatus v w) = logs w" "stats (setStatus v w) = stats w"
  "stopRef (setStatus v w) = stopRef w" "trace (setStatus v w) = trace w @ [SetStatus v]"
  by (simp_all add: setStatus_def)

lemma setStats_fields [simp]:
  "status (setStats f w) = status w" "logs (setStats f w) = logs w"
  "stats (setStats f w) = f (stats w)" "stopRef (setStats f w) = stopRef w"
  "trace (setStats f w) = trace w @ [SetStats (f (stats w))]"
  by (simp_all add: setStats_def)

lemma appendLogs_fields [simp]:
  "status (appendLogs es w) = status w" "logs (appendLogs es w) = logs w @ es"
  "stats (appendLogs es w) = stats w" "stopRef (appendLogs es w) = stopRef w"
  "trace (appendLogs es w) = trace w @ map AddLog es"
  by (simp_all add: appendLogs_def)

lemma call_fields [simp]:
  "status (call c w) = status w" "logs (call c w) = logs w" "stats (call c w) = stats w"
  "stopRef (call c w) = stopRef w" "trace (call c w) = trace w @ [c]"
  by (simp_all add: call_def)

lemma awaiting_fields [simp]:
  "status (awaiting e c w) = status w" "logs (awaiting e c w) = logs w"
  "stats (awaiting e c w) = stats w" "trace (awaiting e c w) = trace w"
  "stopRef (awaiting e c w) = (stopRef w \<or> stopClicked e c)"
  by (simp_all add: awaiting_def handleStop_def)

lemma addLog_appendLogs:
  "addLog m l s h w = appendLogs [\<lparr>level = l, message = m, step = s, hasScreenshot = h\<rparr>] w"
  by (simp add: addLog_def appendLogs_def Let_def)

lemma appendLogs_appendLogs: "appendLogs es (appendLogs ds w) = appendLogs (ds @ es) w"
  by (simp add: appendLogs_def)

lemma addLog_fields [simp]:
  "status (addLog m l s h w) = status w"
  "logs (addLog m l s h w) = logs w @ [\<lparr>level = l, message = m, step = s, hasScreenshot = h\<rparr>]"
  "stats (addLog m l s h w) = stats w" "stopRef (addLog m l s h w) = stopRef w"
  "trace (addLog m l s h w) =
     trace w @ [AddLog \<lparr>level = l, message = m, step = s, hasScreenshot = h\<rparr>]"
  by (simp_all add: addLog_appendLogs)

section \<open>The mock phases write to the log only\<close>

lemma simulateLogin_result: "fst (simulateLogin u p sc al w) = loginSucceeds u p sc"
  by (simp add: simulateLogin_def loginSucceeds_def Let_def)

lemma simulateLogin_addLog:
  "snd (simulateLogin u p sc addLog w) = appendLogs (loginEntries u p sc) w"
  by (simp add: simulateLogin_def loginEntries_def Let_def addLog_appendLogs
      appendLogs_appendLogs collect_def)

lemma simulateNavigation_addLog:
  "simulateNavigation addLog w = appendLogs navigationEntries w"
  by (simp add: simulateNavigation_def navigationEntries_def Let_def addLog_appendLogs
      appendLogs_appendLogs collect_def)

lemma simulateUploadBatch_result:
  "fst (simulateUploadBatch e b n sc al w) = uploadSucceeds e b n sc"
  by (simp add: simulateUploadBatch_def uploadSucceeds_def Let_def)

lemma simulateUploadBatch_addLog:
  "snd (simulateUploadBatch e b n sc addLog w) = appendLogs (uploadEntries e b n sc) w"
  by (simp add: simulateUploadBatch_def uploadEntries_def Let_def addLog_appendLogs
      appendLogs_appendLogs collect_def)

section \<open>Observations distribute over a trace\<close>

lemma snapshots_append [simp]: "snapshots (xs @ ys) = snapshots xs @ snapshots ys"
  by (induction xs rule: snapshots.induct) simp_all

lemma transitions_append [simp]: "transitions (xs @ ys) = transitions xs @ transitions ys"
  by (induction xs rule: transitions.induct) simp_all

lemma uploads_append [simp]: "uploads (xs @ ys) = uploads xs @ uploads ys"
  by (induction xs rule: uploads.induct) simp_all

lemma navigations_append [simp]: "navigations (xs @ ys) = navigations xs + navigations ys"
  by (induction xs rule: navigations.induct) simp_all

lemma observe_AddLog [simp]:
  "snapshots (map AddLog es) = []" "transitions (map AddLog es) = []"
  "uploads (map AddLog es) = []" "navigations (map AddLog es) = 0"
  by (induction es) simp_all

section \<open>The phases of runAutomation\<close>

lemma simulateLogin_eq:
  "simulateLogin u p sc addLog w = (loginSucceeds u p sc, appendLogs (loginEntries u p sc) w)"
  by (simp add: prod_eq_iff simulateLogin_result simulateLogin_addLog)

lemma simulateUploadBatch_eq:
  "simulateUploadBatch e b n sc addLog w =
     (uploadSucceeds e b n sc, appendLogs (uploadEntries e b n sc) w)"
  by (simp add: prod_eq_iff simulateUploadBatch_result simulateUploadBatch_addLog)

lemma startRun_fields:
  "status (startRun w) = RUNNING" "stats (startRun w) = stats w" "stopRef (startRun w) = False"
  "logs (startRun w) =
     [\<lparr>level = SYSTEM, message = ''Initializing Automation Agent v1.0 (Simulation Mode)...'',
        step = ''INIT'', hasScreenshot = False\<rparr>,
      \<lparr>level = INFO, message = ''Target URL: '' @ URLS_LOGIN, step = ''INIT'',
        hasScreenshot = False\<rparr>]"
  "trace (startRun w) = trace w @ SetLogs [] # SetStatus RUNNING # map AddLog (logs (startRun w))"
  by (simp_all add: startRun_def Let_def)

lemma initStats_fields:
  "status (initStats config parsedData batches w) = status w"
  "stopRef (initStats config parsedData batches w) = stopRef w"
  "stats (initStats config parsedData batches w) =
     \<lparr>totalRecords = length parsedData, processedRecords = 0, successCount = 0,
      errorCount = 0, batchesTotal = length batches, batchesCompleted = 0\<rparr>"
  "logs (initStats config parsedData batches w) =
     logs w @
     [\<lparr>level = SUCCESS,
        message = ''Data parsed successfully. '' @ numToString (length parsedData) @ '' records found.'',
        step = ''DATA'', hasScreenshot = False\<rparr>,
      \<lparr>level = INFO,
        message = ''Split into '' @ numToString (length batches) @ '' batch(es) of max ''
                  @ intToString (batchSize config) @ '' records.'',
        step = ''DATA'', hasScreenshot = False\<rparr>]"
  "trace (initStats config parsedData batches w) =
     trace w @ SetStats (stats (initStats config parsedData batches w))
       # map AddLog (drop (length (logs w)) (logs (initStats config parsedData batches w)))"
  by (simp_all add: initStats_def Let_def)

lemma batchPass_fields:
  "status (batchPass e config batches i pt w) = status w"
  "stopRef (batchPass e config batches i pt w) = (stopRef w \<or> stopClicked e (i + 2))"
  "stats (batchPass e config batches i pt w) =
     (stats w)\<lparr>processedRecords := pt + length (batches ! i),
               batchesCompleted := i + 1,
               successCount :=
                 (if uploadSucceeds e (i + 1) (length (batches ! i)) (simulationScenario config)
                  then successCount (stats w) + length (batches ! i) else successCount (stats w)),
               errorCount :=
                 (if \<not> uploadSucceeds e (i + 1) (length (batches ! i)) (simulationScenario config)
                  then errorCount (stats w) + length (batches ! i) else errorCount (stats w))\<rparr>"
  "logs (batchPass e config batches i pt w) =
     logs w @ uploadEntries e (i + 1) (length (batches ! i)) (simulationScenario config)
       @ waitEntries batches i"
  "trace (batchPass e config batches i pt w) =
     trace w @ CallUploadBatch (i + 1) (length (batches ! i))
       # map AddLog (uploadEntries e (i + 1) (length (batches ! i)) (simulationScenario config))
       @ SetStats (stats (batchPass e config batches i pt w))
       # map AddLog (waitEntries batches i)"
  by (simp_all add: batchPass_def Let_def simulateUploadBatch_eq waitEntries_def)


lemma loopInvariant_pass:
  assumes "loopInvariant batches i pt (stats w)" "i < length batches"
  shows "loopInvariant batches (i + 1) (pt + length (batches ! i))
           (stats (batchPass e config batches i pt w))"
  using assms by (auto simp: loopInvariant_def batchPass_fields take_Suc_conv_app_nth)



section \<open>The batch loop\<close>

lemma batchLoop_done:
  "\<not> i < length batches \<Longrightarrow> batchLoop e config batches i pt w = Inr w"
  by simp

lemma batchLoop_stop:
  "i < length batches \<Longrightarrow> stopRef w \<Longrightarrow>
   batchLoop e config batches i pt w =
     Inl (setStatus PAUSED (addLog ''Job stopped by user.'' WARNING ''STOP'' False w))"
  by simp

lemma batchLoop_pass:
  "i < length batches \<Longrightarrow> \<not> stopRef w \<Longrightarrow>
   batchLoop e config batches i pt w =
     batchLoop e config batches (i + 1) (pt + length (batches ! i))
       (batchPass e config batches i pt w)"
  by simp

declare batchLoop.simps [simp del]


lemma batchLoop_completes:
  assumes "batchLoop e config batches i pt w = Inr w'" "loopInvariant batches i pt (stats w)"
  shows "loopInvariant batches (length batches) (sum_list (map length batches)) (stats w')
         \<and> status w' = status w
         \<and> (\<exists>new. trace w' = trace w @ new
               \<and> uploads new = map (\<lambda>j. (j + 1, length (batches ! j))) [i..<length batches]
               \<and> transitions new = [] \<and> navigations new = 0)"
  using assms
proof (induction e config batches i pt w rule: batchLoop.induct)
  case (1 e config batches i pt w)
  show ?case
  proof (cases "i < length batches")
    case False
    with "1.prems" have "w' = w" "i = length batches"
      by (simp_all add: batchLoop_done loopInvariant_def)
    with "1.prems"(2) show ?thesis by (simp add: loopInvariant_def)
  next
    case True
    then have go: "\<not> stopRef w"
      using "1.prems"(1) by (auto simp: batchLoop_stop)
    let ?w = "batchPass e config batches i pt w"
    have inv: "loopInvariant batches (i + 1) (pt + length (batches ! i)) (stats ?w)"
      using "1.prems"(2) True by (rule loopInvariant_pass)
    have run: "batchLoop e config batches (i + 1) (pt + length (batches ! i)) ?w = Inr w'"
      using "1.prems"(1) True go by (simp add: batchLoop_pass)
    from "1.IH" [OF True go run inv] obtain new where new:
      "loopInvariant batches (length batches) (sum_list (map length batches)) (stats w')"
      "status w' = status ?w" "trace w' = trace ?w @ new"
      "uploads new = map (\<lambda>j. (j + 1, length (batches ! j))) [i + 1..<length batches]"
      "transitions new = []" "navigations new = 0"
      by blast
    obtain pass where pass: "trace ?w = trace w @ pass"
      "uploads pass = [(i + 1, length (batches ! i))]" "transitions pass = []" "navigations pass = 0"
      by (simp add: batchPass_fields(5))
    have "[i..<length batches] = i # [i + 1..<length batches]"
      using True by (simp add: upt_conv_Cons)
    then have "uploads (pass @ new) = map (\<lambda>j. (j + 1, length (batches ! j))) [i..<length batches]"
      using new(4) pass(2) by simp
    moreover have "trace w' = trace w @ pass @ new" using new(3) pass(1) by simp
    moreover have "transitions (pass @ new) = []" "navigations (pass @ new) = 0"
      using new pass by simp_all
    ultimately show ?thesis
      using new(1,2) by (auto simp: batchPass_fields(1))
  qed
qed

lemma batchLoop_runs_through:
  assumes "\<not> stopRef w" "\<forall>c. \<not> stopClicked e c"
  shows "\<exists>w'. batchLoop e config batches i pt w = Inr w'"
  using assms
proof (induction e config batches i pt w rule: batchLoop.induct)
  case (1 e config batches i pt w)
  show ?case
  proof (cases "i < length batches")
    case False
    then show ?thesis by (simp add: batchLoop_done)
  next
    case True
    have "\<not> stopRef (batchPass e config batches i pt w)"
      using "1.prems" by (simp add: batchPass_fields(2))
    from "1.IH" [OF True "1.prems"(1) this "1.prems"(2)] show ?thesis
      using True "1.prems"(1) by (simp add: batchLoop_pass)
  qed
qed

lemma batchLoop_pauses:
  assumes "loopInvariant batches i pt (stats w)" "i \<le> k" "k < length batches"
    "stopRef w \<longleftrightarrow> i = k" "\<forall>c\<le>k. \<not> stopClicked e c" "stopClicked e (k + 1)"
  shows "\<exists>w1 new. batchLoop e config batches i pt w =
             Inl (setStatus PAUSED (addLog ''Job stopped by user.'' WARNING ''STOP'' False w1))
           \<and> loopInvariant batches k (sum_list (map length (take k batches))) (stats w1)
           \<and> status w1 = status w
           \<and> trace w1 = trace w @ new
           \<and> uploads new = map (\<lambda>j. (j + 1, length (batches ! j))) [i..<k]
           \<and> transitions new = [] \<and> navigations new = 0"
  using assms
proof (induction e config batches i pt w rule: batchLoop.induct)
  case (1 e config batches i pt w)
  have lt: "i < length batches" using "1.prems"(2,3) by simp
  show ?case
  proof (cases "i = k")
    case True
    with "1.prems"(4) have stop: "stopRef w" by simp
    have "pt = sum_list (map length (take k batches))"
      using "1.prems"(1) True by (simp add: loopInvariant_def)
    moreover have "batchLoop e config batches i pt w =
        Inl (setStatus PAUSED (addLog ''Job stopped by user.'' WARNING ''STOP'' False w))"
      using lt stop by (rule batchLoop_stop)
    ultimately show ?thesis
      using "1.prems"(1) True by (intro exI [of _ w] exI [of _ "[]"]) simp
  next
    case False
    with "1.prems"(4) have go: "\<not> stopRef w" by simp
    let ?w = "batchPass e config batches i pt w"
    have inv: "loopInvariant batches (i + 1) (pt + length (batches ! i)) (stats ?w)"
      using "1.prems"(1) lt by (rule loopInvariant_pass)
    have le: "i + 1 \<le> k" using False "1.prems"(2) by simp
    have flag: "stopRef ?w \<longleftrightarrow> i + 1 = k"
    proof (cases "i + 1 = k")
      case True
      then show ?thesis using "1.prems"(6) by (simp add: batchPass_fields(2))
    next
      case False
      with le have "i + 2 \<le> k" by simp
      with "1.prems"(5) have "\<not> stopClicked e (i + 2)" by blast
      with go False show ?thesis by (simp add: batchPass_fields(2))
    qed
    from "1.IH" [OF lt go inv le "1.prems"(3) flag "1.prems"(5,6)] obtain w1 new where new:
      "batchLoop e config batches (i + 1) (pt + length (batches ! i)) ?w =
         Inl (setStatus PAUSED (addLog ''Job stopped by user.'' WARNING ''STOP'' False w1))"
      "loopInvariant batches k (sum_list (map length (take k batches))) (stats w1)"
      "status w1 = status ?w" "trace w1 = trace ?w @ new"
      "uploads new = map (\<lambda>j. (j + 1, length (batches ! j))) [i + 1..<k]"
      "transitions new = []" "navigations new = 0"
      by blast
    obtain pass where pass: "trace ?w = trace w @ pass"
      "uploads pass = [(i + 1, length (batches ! i))]" "transitions pass = []" "navigations pass = 0"
      by (simp add: batchPass_fields(5))
    have "[i..<k] = i # [i + 1..<k]"
      using le by (simp add: upt_conv_Cons)
    then have up: "uploads (pass @ new) = map (\<lambda>j. (j + 1, length (batches ! j))) [i..<k]"
      using new(5) pass(2) by simp
    have tr: "trace w1 = trace w @ pass @ new" using new(4) pass(1) by simp
    have rest: "transitions (pass @ new) = []" "navigations (pass @ new) = 0"
      using new pass by simp_all
    have "batchLoop e config batches i pt w =
            Inl (setStatus PAUSED (addLog ''Job stopped by user.'' WARNING ''STOP'' False w1))"
      using new(1) lt go by (simp add: batchLoop_pass)
    with new(2,3) up tr rest show ?thesis
      by (intro exI [of _ w1] exI [of _ "pass @ new"]) (simp add: batchPass_fields(1))
  qed
qed

section \<open>runAutomation, phase by phase\<close>

lemma parseCSV_blank: "trim csvText = [] \<Longrightarrow> parseCSV toNumber csvText = []"
  by (simp add: parseCSV_def)

lemma runAutomation_alerts:
  assumes "username config = [] \<or> password = [] \<or> parseCSV toNumber rawData = []"
  shows "\<exists>msg. runAutomation toNumber e config password rawData w0 = Some (alert msg w0)"
  using assms by (auto simp: runAutomation_def Let_def)

lemma runAutomation_started:
  assumes "username config \<noteq> []" "password \<noteq> []" "parseCSV toNumber rawData \<noteq> []"
    "chunkArray (parseCSV toNumber rawData) (batchSize config) = Some batches"
  shows "runAutomation toNumber e config password rawData w0 =
     (let w2 = initStats config (parseCSV toNumber rawData) batches (startRun w0);
          w4 = awaiting e 0
                 (appendLogs (loginEntries (username config) password (simulationScenario config))
                   (call CallLogin w2))
      in if \<not> loginSucceeds (username config) password (simulationScenario config)
         then Some (setStatus FAILED w4)
         else if stopRef w4 then Some w4
         else let w5 = awaiting e 1 (appendLogs navigationEntries (call CallNavigation w4))
              in case batchLoop e config batches 0 0 w5 of
                   Inl w6 \<Rightarrow> Some w6
                 | Inr w6 \<Rightarrow>
                     Some (setStatus COMPLETED
                            (addLog ''All batches processed.'' SUCCESS ''DONE'' False w6)))"
proof -
  have "trim rawData \<noteq> []"
    using assms(3) parseCSV_blank by blast
  with assms show ?thesis
    by (simp add: runAutomation_def Let_def simulateLogin_eq simulateNavigation_addLog
        initStats_fields(2) startRun_fields(3))
qed

lemma runAutomation_diverges:
  assumes "username config \<noteq> []" "password \<noteq> []" "parseCSV toNumber rawData \<noteq> []"
    "chunkArray (parseCSV toNumber rawData) (batchSize config) = None"
  shows "runAutomation toNumber e config password rawData w0 = None"
proof -
  have "trim rawData \<noteq> []"
    using assms(3) parseCSV_blank by blast
  with assms show ?thesis
    by (simp add: runAutomation_def Let_def)
qed

text \<open>The state when the login is about to be called, and what the run did until then.\<close>

lemma initialised:
  fixes w0 config parsedData batches
  defines "w2 \<equiv> initStats config parsedData batches (startRun w0)"
  shows "status w2 = RUNNING" "stopRef w2 = False"
    "stats w2 = \<lparr>totalRecords = length parsedData, processedRecords = 0, successCount = 0,
                  errorCount = 0, batchesTotal = length batches, batchesCompleted = 0\<rparr>"
    "\<exists>pre. trace w2 = trace w0 @ pre \<and> snapshots pre = [stats w2]
          \<and> transitions pre = [RUNNING] \<and> uploads pre = [] \<and> navigations pre = 0"
    "list_all (\<lambda>l. level l \<noteq> ERROR) (logs w2)"
proof -
  show "status w2 = RUNNING" "stopRef w2 = False"
    "stats w2 = \<lparr>totalRecords = length parsedData, processedRecords = 0, successCount = 0,
                  errorCount = 0, batchesTotal = length batches, batchesCompleted = 0\<rparr>"
    by (simp_all add: w2_def initStats_fields startRun_fields)
  show "\<exists>pre. trace w2 = trace w0 @ pre \<and> snapshots pre = [stats w2]
          \<and> transitions pre = [RUNNING] \<and> uploads pre = [] \<and> navigations pre = 0"
    unfolding w2_def
    by (subst initStats_fields(5), subst startRun_fields(5)) simp
  show "list_all (\<lambda>l. level l \<noteq> ERROR) (logs w2)"
    by (simp add: w2_def initStats_fields startRun_fields)
qed

lemma loginEntries_failed:
  assumes "\<not> loginSucceeds u p sc"
  shows "map (\<lambda>l. (level l, step l)) (loginEntries u p sc) =
           (if sc = ERROR_VPN then [(INFO, ''LOGIN''), (ERROR, ''NET''), (ERROR, ''SYS'')]
            else [(INFO, ''LOGIN''), (INFO, ''AUTH''), (ERROR, ''AUTH''), (SYSTEM, ''AUTH'')])"
  using assms
  by (simp add: loginSucceeds_def loginEntries_def simulateLogin_def Let_def collect_def
      split: if_splits)

lemma loopInvariant_start:
  assumes "chunkArray parsedData sz = Some batches" "parsedData \<noteq> []"
  shows "loopInvariant batches 0 0
           \<lparr>totalRecords = length parsedData, processedRecords = 0, successCount = 0,
            errorCount = 0, batchesTotal = length batches, batchesCompleted = 0\<rparr>"
proof -
  have "concat batches = parsedData"
    using chunkArray_Some [OF assms] by simp
  then have "length parsedData = sum_list (map length batches)"
    by (metis length_concat)
  then show ?thesis by (simp add: loopInvariant_def)
qed

lemma login_failure_run:
  assumes "username config \<noteq> []" "password \<noteq> []" "parseCSV toNumber rawData \<noteq> []"
    "chunkArray (parseCSV toNumber rawData) (batchSize config) = Some batches"
    "\<not> loginSucceeds (username config) password (simulationScenario config)"
  shows "runAutomation toNumber e config password rawData w0 =
     Some (setStatus FAILED (awaiting e 0
       (appendLogs (loginEntries (username config) password (simulationScenario config))
         (call CallLogin (initStats config (parseCSV toNumber rawData) batches (startRun w0))))))"
  using assms(5) by (simp add: runAutomation_started [OF assms(1-4)] Let_def)

text \<open>
  \<^bold>\<open>C5.\<close> A run that passes the checks of the start, with a batch size above 0 so
  that the batches are built, and whose login returns false: \<open>runAutomation\<close> returns
  with the status \<open>FAILED\<close>, the log holds an entry of level \<open>ERROR\<close>, the run called
  neither the navigation nor any upload, and \<open>batchesCompleted\<close> is 0.
\<close>

theorem login_failure_stops:
  assumes "username config \<noteq> []" "password \<noteq> []" "parseCSV toNumber rawData \<noteq> []"
    "0 < batchSize config"
    "\<not> loginSucceeds (username config) password (simulationScenario config)"
  shows "\<exists>w new. runAutomation toNumber e config password rawData w0 = Some w
           \<and> status w = FAILED
           \<and> list_ex (\<lambda>l. level l = ERROR) (logs w)
           \<and> trace w = trace w0 @ new
           \<and> navigations new = 0 \<and> uploads new = []
           \<and> batchesCompleted (stats w) = 0"
proof -
  obtain batches where batches:
    "chunkArray (parseCSV toNumber rawData) (batchSize config) = Some batches"
    using chunkArray_returns [OF assms(4)] by blast
  let ?w2 = "initStats config (parseCSV toNumber rawData) batches (startRun w0)"
  let ?es = "loginEntries (username config) password (simulationScenario config)"
  let ?w = "setStatus FAILED (awaiting e 0 (appendLogs ?es (call CallLogin ?w2)))"
  have run: "runAutomation toNumber e config password rawData w0 = Some ?w"
    using assms(1-3) batches assms(5) by (rule login_failure_run)
  obtain pre where pre: "trace ?w2 = trace w0 @ pre" "uploads pre = []" "navigations pre = 0"
    using initialised(4) [of config "parseCSV toNumber rawData" batches w0] by blast
  have "list_ex (\<lambda>p. fst p = ERROR) (map (\<lambda>l. (level l, step l)) ?es)"
    by (simp add: loginEntries_failed [OF assms(5)])
  then have err: "list_ex (\<lambda>l. level l = ERROR) ?es"
    by (simp add: list_ex_iff)
  let ?new = "pre @ CallLogin # map AddLog ?es @ [SetStatus FAILED]"
  have "status ?w = FAILED" by simp
  moreover have "list_ex (\<lambda>l. level l = ERROR) (logs ?w)"
    using err by (auto simp: list_ex_iff)
  moreover have "trace ?w = trace w0 @ ?new" by (simp add: pre(1))
  moreover have "navigations ?new = 0" "uploads ?new = []" by (simp_all add: pre)
  moreover have "batchesCompleted (stats ?w) = 0" by (simp add: initialised(3))
  ultimately show ?thesis using run by blast
qed

theorem login_failure_stops_witness:
  "username exampleConfig \<noteq> [] \<and> rejectedPassword \<noteq> []
   \<and> parseCSV exampleNumber exampleCsv \<noteq> [] \<and> 0 < batchSize exampleConfig
   \<and> \<not> loginSucceeds (username exampleConfig) rejectedPassword (simulationScenario exampleConfig)
   \<and> (\<exists>w new. runAutomation exampleNumber quietEnv exampleConfig rejectedPassword exampleCsv idleWorld = Some w
           \<and> status w = FAILED
           \<and> list_ex (\<lambda>l. level l = ERROR) (logs w)
           \<and> trace w = trace idleWorld @ new
           \<and> navigations new = 0 \<and> uploads new = []
           \<and> batchesCompleted (stats w) = 0)"
proof -
  have h: "username exampleConfig \<noteq> []" "rejectedPassword \<noteq> []"
    "parseCSV exampleNumber exampleCsv \<noteq> []" "0 < batchSize exampleConfig"
    "\<not> loginSucceeds (username exampleConfig) rejectedPassword (simulationScenario exampleConfig)"
    by code_simp+
  from login_failure_stops [OF h, of quietEnv idleWorld] h show ?thesis by blast
qed

text \<open>
  \<^bold>\<open>C8,\<close> as the code has it. When the login returns false the run sets the status
  to \<open>RUNNING\<close> and then to \<open>FAILED\<close> and nothing else, and the statistics are the ones
  written at the initialisation: the totals set, every other count 0. The entries of
  level \<open>ERROR\<close> in the log are one entry tagged \<open>AUTH\<close> when the credentials were
  rejected, and two entries tagged \<open>NET\<close> and \<open>SYS\<close> under the scenario \<open>ERROR_VPN\<close>.
\<close>

theorem login_failure_events:
  assumes "username config \<noteq> []" "password \<noteq> []" "parseCSV toNumber rawData \<noteq> []"
    "0 < batchSize config"
    "\<not> loginSucceeds (username config) password (simulationScenario config)"
  shows "\<exists>w new batches. runAutomation toNumber e config password rawData w0 = Some w
           \<and> chunkArray (parseCSV toNumber rawData) (batchSize config) = Some batches
           \<and> trace w = trace w0 @ new
           \<and> transitions new = [RUNNING, FAILED]
           \<and> snapshots new = [stats w]
           \<and> stats w = \<lparr>totalRecords = length (parseCSV toNumber rawData), processedRecords = 0,
                         successCount = 0, errorCount = 0, batchesTotal = length batches,
                         batchesCompleted = 0\<rparr>
           \<and> map step (filter (\<lambda>l. level l = ERROR) (logs w)) =
               (if simulationScenario config = ERROR_VPN then [''NET'', ''SYS''] else [''AUTH''])"
proof -
  obtain batches where batches:
    "chunkArray (parseCSV toNumber rawData) (batchSize config) = Some batches"
    using chunkArray_returns [OF assms(4)] by blast
  let ?w2 = "initStats config (parseCSV toNumber rawData) batches (startRun w0)"
  let ?es = "loginEntries (username config) password (simulationScenario config)"
  let ?w = "setStatus FAILED (awaiting e 0 (appendLogs ?es (call CallLogin ?w2)))"
  have run: "runAutomation toNumber e config password rawData w0 = Some ?w"
    using assms(1-3) batches assms(5) by (rule login_failure_run)
  obtain pre where pre: "trace ?w2 = trace w0 @ pre" "snapshots pre = [stats ?w2]"
    "transitions pre = [RUNNING]"
    using initialised(4) [of config "parseCSV toNumber rawData" batches w0] by blast
  let ?new = "pre @ CallLogin # map AddLog ?es @ [SetStatus FAILED]"
  have quiet: "filter (\<lambda>l. level l = ERROR) (logs ?w2) = []"
    using initialised(5) [of config "parseCSV toNumber rawData" batches w0]
    by (simp add: list_all_iff)
  have "map step (filter (\<lambda>l. level l = ERROR) ?es) =
        map snd (filter (\<lambda>p. fst p = ERROR) (map (\<lambda>l. (level l, step l)) ?es))"
    by (simp add: filter_map o_def)
  also have "\<dots> = (if simulationScenario config = ERROR_VPN then [''NET'', ''SYS''] else [''AUTH''])"
    by (simp add: loginEntries_failed [OF assms(5)])
  finally have errs: "map step (filter (\<lambda>l. level l = ERROR) (logs ?w)) =
      (if simulationScenario config = ERROR_VPN then [''NET'', ''SYS''] else [''AUTH''])"
    using quiet by simp
  have "trace ?w = trace w0 @ ?new" by (simp add: pre(1))
  moreover have "transitions ?new = [RUNNING, FAILED]" "snapshots ?new = [stats ?w]"
    by (simp_all add: pre)
  moreover have "stats ?w = \<lparr>totalRecords = length (parseCSV toNumber rawData), processedRecords = 0,
                         successCount = 0, errorCount = 0, batchesTotal = length batches,
                         batchesCompleted = 0\<rparr>"
    by (simp add: initialised(3))
  ultimately show ?thesis using run batches errs by blast
qed

theorem login_failure_events_witness:
  "username exampleConfig \<noteq> [] \<and> rejectedPassword \<noteq> []
   \<and> parseCSV exampleNumber exampleCsv \<noteq> [] \<and> 0 < batchSize exampleConfig
   \<and> \<not> loginSucceeds (username exampleConfig) rejectedPassword (simulationScenario exampleConfig)
   \<and> (\<exists>w new batches.
         runAutomation exampleNumber quietEnv exampleConfig rejectedPassword exampleCsv idleWorld = Some w
           \<and> chunkArray (parseCSV exampleNumber exampleCsv) (batchSize exampleConfig) = Some batches
           \<and> trace w = trace idleWorld @ new
           \<and> transitions new = [RUNNING, FAILED]
           \<and> snapshots new = [stats w]
           \<and> stats w = \<lparr>totalRecords = length (parseCSV exampleNumber exampleCsv),
                         processedRecords = 0, successCount = 0, errorCount = 0,
                         batchesTotal = length batches, batchesCompleted = 0\<rparr>
           \<and> map step (filter (\<lambda>l. level l = ERROR) (logs w)) =
               (if simulationScenario exampleConfig = ERROR_VPN then [''NET'', ''SYS'']
                else [''AUTH'']))
   \<and> map_option (\<lambda>w. (transitions (trace w), stats w, map step (filter (\<lambda>l. level l = ERROR) (logs w))))
       (runAutomation exampleNumber quietEnv exampleConfig rejectedPassword exampleCsv idleWorld)
     = Some ([RUNNING, FAILED],
             \<lparr>totalRecords = 3, processedRecords = 0, successCount = 0, errorCount = 0,
              batchesTotal = 2, batchesCompleted = 0\<rparr>, [''AUTH''])"
proof -
  have h: "username exampleConfig \<noteq> []" "rejectedPassword \<noteq> []"
    "parseCSV exampleNumber exampleCsv \<noteq> []" "0 < batchSize exampleConfig"
    "\<not> loginSucceeds (username exampleConfig) rejectedPassword (simulationScenario exampleConfig)"
    by code_simp+
  have v: "map_option (\<lambda>w. (transitions (trace w), stats w, map step (filter (\<lambda>l. level l = ERROR) (logs w))))
       (runAutomation exampleNumber quietEnv exampleConfig rejectedPassword exampleCsv idleWorld)
     = Some ([RUNNING, FAILED],
             \<lparr>totalRecords = 3, processedRecords = 0, successCount = 0, errorCount = 0,
              batchesTotal = 2, batchesCompleted = 0\<rparr>, [''AUTH''])"
    by code_simp
  from login_failure_events [OF h, of quietEnv idleWorld] h v show ?thesis by blast
qed

text \<open>
  \<^bold>\<open>C8\<close> as stated asks for exactly one entry of level \<open>ERROR\<close>, tagged \<open>AUTH\<close>,
  in every run whose login fails. Under the scenario \<open>ERROR_VPN\<close> the login fails
  with two such entries, tagged \<open>NET\<close> and \<open>SYS\<close>, and none tagged \<open>AUTH\<close>.
\<close>

theorem login_failure_events_counterexample:
  "\<not> loginSucceeds (username vpnConfig) ''user'' (simulationScenario vpnConfig)
   \<and> map_option (\<lambda>w. (status w, map step (filter (\<lambda>l. level l = ERROR) (logs w))))
       (runAutomation exampleNumber quietEnv vpnConfig ''user'' exampleCsv idleWorld)
     = Some (FAILED, [''NET'', ''SYS''])"
  by code_simp

text \<open>The state at the top of the batch loop, after a login that succeeded and was not
  interrupted.\<close>

lemma loop_entry:
  fixes e ini config password parsedData batches
  defines "w2 \<equiv> initStats config parsedData batches (startRun ini)"
  defines "w4 \<equiv> awaiting e 0
     (appendLogs (loginEntries (username config) password (simulationScenario config))
       (call CallLogin w2))"
  defines "w5 \<equiv> awaiting e 1 (appendLogs navigationEntries (call CallNavigation w4))"
  shows "stopRef w4 = stopClicked e 0"
    "stopRef w5 = (stopClicked e 0 \<or> stopClicked e 1)"
    "status w5 = RUNNING"
    "stats w5 = \<lparr>totalRecords = length parsedData, processedRecords = 0, successCount = 0,
                  errorCount = 0, batchesTotal = length batches, batchesCompleted = 0\<rparr>"
    "\<exists>pre. trace w5 = trace ini @ pre \<and> snapshots pre = [stats w5]
          \<and> transitions pre = [RUNNING] \<and> uploads pre = [] \<and> navigations pre = 1"
    "\<exists>pre. trace w4 = trace ini @ pre \<and> snapshots pre = [stats w4]
          \<and> transitions pre = [RUNNING] \<and> uploads pre = [] \<and> navigations pre = 0"
    "stats w4 = stats w5"
proof -
  obtain pre where pre: "trace w2 = trace ini @ pre" "snapshots pre = [stats w2]"
    "transitions pre = [RUNNING]" "uploads pre = []" "navigations pre = 0"
    unfolding w2_def using initialised(4) [of config parsedData batches ini] by blast
  show "stopRef w4 = stopClicked e 0" "stopRef w5 = (stopClicked e 0 \<or> stopClicked e 1)"
    "status w5 = RUNNING"
    "stats w5 = \<lparr>totalRecords = length parsedData, processedRecords = 0, successCount = 0,
                  errorCount = 0, batchesTotal = length batches, batchesCompleted = 0\<rparr>"
    "stats w4 = stats w5"
    by (simp_all add: w5_def w4_def w2_def initialised)
  have s: "stats w5 = stats w2" "stats w4 = stats w2" by (simp_all add: w5_def w4_def)
  show "\<exists>pre. trace w5 = trace ini @ pre \<and> snapshots pre = [stats w5]
          \<and> transitions pre = [RUNNING] \<and> uploads pre = [] \<and> navigations pre = 1"
    by (rule exI [of _ "pre @ CallLogin
          # map AddLog (loginEntries (username config) password (simulationScenario config))
          @ CallNavigation # map AddLog navigationEntries"])
      (simp add: s pre, simp add: w5_def w4_def pre)
  show "\<exists>pre. trace w4 = trace ini @ pre \<and> snapshots pre = [stats w4]
          \<and> transitions pre = [RUNNING] \<and> uploads pre = [] \<and> navigations pre = 0"
    by (rule exI [of _ "pre @ CallLogin
          # map AddLog (loginEntries (username config) password (simulationScenario config))"])
      (simp add: s pre, simp add: w4_def pre)
qed

lemma login_success_run:
  assumes "username config \<noteq> []" "password \<noteq> []" "parseCSV toNumber rawData \<noteq> []"
    "chunkArray (parseCSV toNumber rawData) (batchSize config) = Some batches"
    "loginSucceeds (username config) password (simulationScenario config)"
    "\<not> stopClicked e 0"
  shows "runAutomation toNumber e config password rawData w0 =
     (case batchLoop e config batches 0 0
             (awaiting e 1 (appendLogs navigationEntries (call CallNavigation
               (awaiting e 0
                 (appendLogs (loginEntries (username config) password (simulationScenario config))
                   (call CallLogin
                     (initStats config (parseCSV toNumber rawData) batches (startRun w0)))))))) of
        Inl w6 \<Rightarrow> Some w6
      | Inr w6 \<Rightarrow>
          Some (setStatus COMPLETED (addLog ''All batches processed.'' SUCCESS ''DONE'' False w6)))"
  using assms(5,6)
  by (simp add: runAutomation_started [OF assms(1-4)] Let_def initialised(2))

text \<open>
  \<^bold>\<open>C4.\<close> The login succeeds, Stop is not clicked before the read of the flag at
  the top of pass \<open>k\<close> of the batch loop has nothing but the awaits of pass \<open>k - 1\<close> (of
  the navigation, for \<open>k = 0\<close>) before it, and is clicked during these, with \<open>k\<close> less
  than the number of batches. Then \<open>runAutomation\<close> returns with the status \<open>PAUSED\<close>;
  its last two effects are the \<open>WARNING\<close> entry and the change of status; it uploaded
  the batches 1 to \<open>k\<close> and no other; \<open>batchesCompleted\<close> is \<open>k\<close> and
  \<open>processedRecords\<close> is the sum of the sizes of the first \<open>k\<close> batches.
\<close>

theorem cancellation_pauses:
  assumes "username config \<noteq> []" "password \<noteq> []" "parseCSV toNumber rawData \<noteq> []"
    "chunkArray (parseCSV toNumber rawData) (batchSize config) = Some batches"
    "loginSucceeds (username config) password (simulationScenario config)"
    "k < length batches" "\<forall>c\<le>k. \<not> stopClicked e c" "stopClicked e (k + 1)"
  shows "\<exists>w new. runAutomation toNumber e config password rawData w0 = Some w
           \<and> status w = PAUSED
           \<and> batchesCompleted (stats w) = k
           \<and> processedRecords (stats w) = sum_list (map length (take k batches))
           \<and> trace w = trace w0 @ new
                 @ [AddLog \<lparr>level = WARNING, message = ''Job stopped by user.'', step = ''STOP'',
                            hasScreenshot = False\<rparr>,
                    SetStatus PAUSED]
           \<and> uploads new = map (\<lambda>j. (j + 1, length (batches ! j))) [0..<k]
           \<and> transitions new = [RUNNING]"
proof -
  define w5 where "w5 = awaiting e 1 (appendLogs navigationEntries (call CallNavigation
               (awaiting e 0
                 (appendLogs (loginEntries (username config) password (simulationScenario config))
                   (call CallLogin
                     (initStats config (parseCSV toNumber rawData) batches (startRun w0)))))))"
  have entry: "stopRef w5 = (stopClicked e 0 \<or> stopClicked e 1)"
    "stats w5 = \<lparr>totalRecords = length (parseCSV toNumber rawData), processedRecords = 0,
                  successCount = 0, errorCount = 0, batchesTotal = length batches,
                  batchesCompleted = 0\<rparr>"
    unfolding w5_def by (simp_all add: initialised)
  obtain pre where pre: "trace w5 = trace w0 @ pre" "transitions pre = [RUNNING]"
    "uploads pre = []"
    unfolding w5_def
    using loop_entry(5) [where e = e and ini = w0 and config = config and password = password
        and parsedData = "parseCSV toNumber rawData" and batches = batches] by blast
  have c0: "\<not> stopClicked e 0" using assms(7) by blast
  have run: "runAutomation toNumber e config password rawData w0 =
     (case batchLoop e config batches 0 0 w5 of
        Inl w6 \<Rightarrow> Some w6
      | Inr w6 \<Rightarrow>
          Some (setStatus COMPLETED (addLog ''All batches processed.'' SUCCESS ''DONE'' False w6)))"
    unfolding w5_def using assms(1-5) c0 by (rule login_success_run)
  have inv: "loopInvariant batches 0 0 (stats w5)"
    using loopInvariant_start [OF assms(4,3)] by (simp add: entry(2))
  have flag: "stopRef w5 \<longleftrightarrow> 0 = k"
  proof (cases "k = 0")
    case True
    with assms(8) show ?thesis by (simp add: entry(1))
  next
    case False
    then have "1 \<le> k" by simp
    with assms(7) have "\<not> stopClicked e 1" by blast
    with c0 False show ?thesis by (simp add: entry(1))
  qed
  obtain w1 new where loop:
    "batchLoop e config batches 0 0 w5 =
       Inl (setStatus PAUSED (addLog ''Job stopped by user.'' WARNING ''STOP'' False w1))"
    "loopInvariant batches k (sum_list (map length (take k batches))) (stats w1)"
    "trace w1 = trace w5 @ new"
    "uploads new = map (\<lambda>j. (j + 1, length (batches ! j))) [0..<k]"
    "transitions new = []"
    using batchLoop_pauses [OF inv _ assms(6) flag assms(7,8), of config] by auto
  let ?w = "setStatus PAUSED (addLog ''Job stopped by user.'' WARNING ''STOP'' False w1)"
  have "runAutomation toNumber e config password rawData w0 = Some ?w"
    unfolding run loop(1) by simp
  moreover have "status ?w = PAUSED" by simp
  moreover have "batchesCompleted (stats ?w) = k"
    "processedRecords (stats ?w) = sum_list (map length (take k batches))"
    using loop(2) by (simp_all add: loopInvariant_def)
  moreover have "trace ?w = trace w0 @ (pre @ new)
                 @ [AddLog \<lparr>level = WARNING, message = ''Job stopped by user.'', step = ''STOP'',
                            hasScreenshot = False\<rparr>,
                    SetStatus PAUSED]"
    by (simp add: loop(3) pre(1))
  moreover have "uploads (pre @ new) = map (\<lambda>j. (j + 1, length (batches ! j))) [0..<k]"
    "transitions (pre @ new) = [RUNNING]"
    by (simp_all add: loop pre)
  ultimately show ?thesis by blast
qed

theorem cancellation_pauses_witness:
  "username exampleConfig \<noteq> [] \<and> ''user'' \<noteq> [] \<and> parseCSV exampleNumber exampleCsv \<noteq> []
   \<and> loginSucceeds (username exampleConfig) ''user'' (simulationScenario exampleConfig)
   \<and> \<not> stopClicked stopEnv 0 \<and> \<not> stopClicked stopEnv 1 \<and> stopClicked stopEnv (1 + 1)
   \<and> (\<exists>batches w new.
         chunkArray (parseCSV exampleNumber exampleCsv) (batchSize exampleConfig) = Some batches
         \<and> 1 < length batches
         \<and> runAutomation exampleNumber stopEnv exampleConfig ''user'' exampleCsv idleWorld = Some w
         \<and> status w = PAUSED
         \<and> batchesCompleted (stats w) = 1
         \<and> processedRecords (stats w) = sum_list (map length (take 1 batches))
         \<and> trace w = trace idleWorld @ new
               @ [AddLog \<lparr>level = WARNING, message = ''Job stopped by user.'', step = ''STOP'',
                          hasScreenshot = False\<rparr>,
                  SetStatus PAUSED]
         \<and> uploads new = map (\<lambda>j. (j + 1, length (batches ! j))) [0..<1]
         \<and> transitions new = [RUNNING])
   \<and> map_option (\<lambda>w. (status w, stats w, uploads (trace w)))
        (runAutomation exampleNumber stopEnv exampleConfig ''user'' exampleCsv idleWorld)
      = Some (PAUSED,
              \<lparr>totalRecords = 3, processedRecords = 2, successCount = 2, errorCount = 0,
               batchesTotal = 2, batchesCompleted = 1\<rparr>, [(1, 2)])"
proof -
  have h: "username exampleConfig \<noteq> []" "''user'' \<noteq> []"
    "parseCSV exampleNumber exampleCsv \<noteq> []"
    "loginSucceeds (username exampleConfig) ''user'' (simulationScenario exampleConfig)"
    by code_simp+
  have c: "\<not> stopClicked stopEnv 0" "\<not> stopClicked stopEnv 1" "stopClicked stopEnv (1 + 1)"
    by (simp_all add: stopEnv_def)
  then have q: "\<forall>c\<le>1. \<not> stopClicked stopEnv c"
    by (simp add: stopEnv_def)
  have "map_option length (chunkArray (parseCSV exampleNumber exampleCsv) (batchSize exampleConfig))
        = Some 2"
    by code_simp
  then obtain batches where b:
    "chunkArray (parseCSV exampleNumber exampleCsv) (batchSize exampleConfig) = Some batches"
    "1 < length batches"
    by auto
  have v: "map_option (\<lambda>w. (status w, stats w, uploads (trace w)))
        (runAutomation exampleNumber stopEnv exampleConfig ''user'' exampleCsv idleWorld)
      = Some (PAUSED,
              \<lparr>totalRecords = 3, processedRecords = 2, successCount = 2, errorCount = 0,
               batchesTotal = 2, batchesCompleted = 1\<rparr>, [(1, 2)])"
    by code_simp
  from cancellation_pauses [OF h(1-3) b(1) h(4) b(2) q c(3), of idleWorld] h c b v
  show ?thesis by blast
qed

text \<open>
  \<^bold>\<open>C2.\<close> A run that passes the checks of the start, with a batch size above 0,
  whose login succeeds and during which Stop is never clicked: \<open>runAutomation\<close>
  returns with the status \<open>COMPLETED\<close>, it called the upload once for every batch, in
  order, whatever each upload returned, and the final statistics have
  \<open>successCount + errorCount = processedRecords = totalRecords\<close> and
  \<open>batchesCompleted = batchesTotal\<close>.
\<close>

theorem uninterrupted_run_completes:
  assumes "username config \<noteq> []" "password \<noteq> []" "parseCSV toNumber rawData \<noteq> []"
    "0 < batchSize config"
    "loginSucceeds (username config) password (simulationScenario config)"
    "\<forall>c. \<not> stopClicked e c"
  shows "\<exists>w new batches. runAutomation toNumber e config password rawData w0 = Some w
           \<and> chunkArray (parseCSV toNumber rawData) (batchSize config) = Some batches
           \<and> status w = COMPLETED
           \<and> trace w = trace w0 @ new
           \<and> uploads new = map (\<lambda>j. (j + 1, length (batches ! j))) [0..<length batches]
           \<and> transitions new = [RUNNING, COMPLETED]
           \<and> successCount (stats w) + errorCount (stats w) = processedRecords (stats w)
           \<and> processedRecords (stats w) = totalRecords (stats w)
           \<and> totalRecords (stats w) = length (parseCSV toNumber rawData)
           \<and> batchesCompleted (stats w) = batchesTotal (stats w)
           \<and> batchesTotal (stats w) = length batches"
proof -
  obtain batches where batches:
    "chunkArray (parseCSV toNumber rawData) (batchSize config) = Some batches"
    using chunkArray_returns [OF assms(4)] by blast
  define w5 where "w5 = awaiting e 1 (appendLogs navigationEntries (call CallNavigation
               (awaiting e 0
                 (appendLogs (loginEntries (username config) password (simulationScenario config))
                   (call CallLogin
                     (initStats config (parseCSV toNumber rawData) batches (startRun w0)))))))"
  have entry: "stopRef w5 = (stopClicked e 0 \<or> stopClicked e 1)"
    "stats w5 = \<lparr>totalRecords = length (parseCSV toNumber rawData), processedRecords = 0,
                  successCount = 0, errorCount = 0, batchesTotal = length batches,
                  batchesCompleted = 0\<rparr>"
    unfolding w5_def by (simp_all add: initialised)
  obtain pre where pre: "trace w5 = trace w0 @ pre" "transitions pre = [RUNNING]"
    "uploads pre = []"
    unfolding w5_def
    using loop_entry(5) [where e = e and ini = w0 and config = config and password = password
        and parsedData = "parseCSV toNumber rawData" and batches = batches] by blast
  have c0: "\<not> stopClicked e 0" using assms(6) by blast
  have run: "runAutomation toNumber e config password rawData w0 =
     (case batchLoop e config batches 0 0 w5 of
        Inl w6 \<Rightarrow> Some w6
      | Inr w6 \<Rightarrow>
          Some (setStatus COMPLETED (addLog ''All batches processed.'' SUCCESS ''DONE'' False w6)))"
    unfolding w5_def using assms(1-3) batches assms(5) c0 by (rule login_success_run)
  have inv: "loopInvariant batches 0 0 (stats w5)"
    using loopInvariant_start [OF batches assms(3)] by (simp add: entry(2))
  have "\<not> stopRef w5" using assms(6) by (simp add: entry(1))
  then obtain w6 where w6: "batchLoop e config batches 0 0 w5 = Inr w6"
    using batchLoop_runs_through [OF _ assms(6)] by blast
  from batchLoop_completes [OF w6 inv] obtain new where loop:
    "loopInvariant batches (length batches) (sum_list (map length batches)) (stats w6)"
    "trace w6 = trace w5 @ new"
    "uploads new = map (\<lambda>j. (j + 1, length (batches ! j))) [0..<length batches]"
    "transitions new = []"
    by blast
  have total: "length (parseCSV toNumber rawData) = sum_list (map length batches)"
    using chunkArray_Some [OF batches assms(3)] by (metis length_concat)
  let ?w = "setStatus COMPLETED (addLog ''All batches processed.'' SUCCESS ''DONE'' False w6)"
  let ?new = "pre @ new @ [AddLog \<lparr>level = SUCCESS, message = ''All batches processed.'',
                                   step = ''DONE'', hasScreenshot = False\<rparr>,
                           SetStatus COMPLETED]"
  have "runAutomation toNumber e config password rawData w0 = Some ?w"
    unfolding run w6 by simp
  moreover have "status ?w = COMPLETED" by simp
  moreover have "trace ?w = trace w0 @ ?new" by (simp add: loop(2) pre(1))
  moreover have "uploads ?new = map (\<lambda>j. (j + 1, length (batches ! j))) [0..<length batches]"
    "transitions ?new = [RUNNING, COMPLETED]"
    by (simp_all add: loop pre)
  moreover have "successCount (stats ?w) + errorCount (stats ?w) = processedRecords (stats ?w)"
    "processedRecords (stats ?w) = totalRecords (stats ?w)"
    "totalRecords (stats ?w) = length (parseCSV toNumber rawData)"
    "batchesCompleted (stats ?w) = batchesTotal (stats ?w)"
    "batchesTotal (stats ?w) = length batches"
    using loop(1) total by (simp_all add: loopInvariant_def)
  ultimately show ?thesis using batches by blast
qed

theorem uninterrupted_run_completes_witness:
  "username exampleConfig \<noteq> [] \<and> ''user'' \<noteq> [] \<and> parseCSV exampleNumber exampleCsv \<noteq> []
   \<and> 0 < batchSize exampleConfig
   \<and> loginSucceeds (username exampleConfig) ''user'' (simulationScenario exampleConfig)
   \<and> (\<exists>w new batches.
         runAutomation exampleNumber quietEnv exampleConfig ''user'' exampleCsv idleWorld = Some w
         \<and> chunkArray (parseCSV exampleNumber exampleCsv) (batchSize exampleConfig) = Some batches
         \<and> status w = COMPLETED
         \<and> trace w = trace idleWorld @ new
         \<and> uploads new = map (\<lambda>j. (j + 1, length (batches ! j))) [0..<length batches]
         \<and> transitions new = [RUNNING, COMPLETED]
         \<and> successCount (stats w) + errorCount (stats w) = processedRecords (stats w)
         \<and> processedRecords (stats w) = totalRecords (stats w)
         \<and> totalRecords (stats w) = length (parseCSV exampleNumber exampleCsv)
         \<and> batchesCompleted (stats w) = batchesTotal (stats w)
         \<and> batchesTotal (stats w) = length batches)
   \<and> map_option (\<lambda>w. (status w, stats w, uploads (trace w)))
        (runAutomation exampleNumber quietEnv exampleConfig ''user'' exampleCsv idleWorld)
      = Some (COMPLETED,
              \<lparr>totalRecords = 3, processedRecords = 3, successCount = 2, errorCount = 1,
               batchesTotal = 2, batchesCompleted = 2\<rparr>, [(1, 2), (2, 1)])"
proof -
  have h: "username exampleConfig \<noteq> []" "''user'' \<noteq> []"
    "parseCSV exampleNumber exampleCsv \<noteq> []" "0 < batchSize exampleConfig"
    "loginSucceeds (username exampleConfig) ''user'' (simulationScenario exampleConfig)"
    by code_simp+
  have q: "\<forall>c. \<not> stopClicked quietEnv c"
    by (simp add: quietEnv_def)
  have v: "map_option (\<lambda>w. (status w, stats w, uploads (trace w)))
        (runAutomation exampleNumber quietEnv exampleConfig ''user'' exampleCsv idleWorld)
      = Some (COMPLETED,
              \<lparr>totalRecords = 3, processedRecords = 3, successCount = 2, errorCount = 1,
               batchesTotal = 2, batchesCompleted = 2\<rparr>, [(1, 2), (2, 1)])"
    by code_simp
  from uninterrupted_run_completes [OF h q, of idleWorld] h v
  show ?thesis by blast
qed



lemma loginEntries_verdict:
  assumes "loginSucceeds u p sc = loginSucceeds u p' sc"
  shows "loginEntries u p sc = loginEntries u p' sc"
  using assms
  by (auto simp: loginSucceeds_def loginEntries_def simulateLogin_def Let_def split: if_splits)

text \<open>
  \<^bold>\<open>C9.\<close> The password is never logged: no effect of a run is built from it. Two
  runs that differ in the password only, both passwords empty or both not, and to
  which the mock login gives the same verdict, end in the same state, with the same
  log, message for message, and the same sequence of effects.
\<close>

theorem password_does_not_reach_the_log:
  assumes "(password = []) = (password' = [])"
    "loginSucceeds (username config) password (simulationScenario config) =
     loginSucceeds (username config) password' (simulationScenario config)"
  shows "runAutomation toNumber e config password rawData w0 =
         runAutomation toNumber e config password' rawData w0"
proof (cases "username config = [] \<or> password = [] \<or> parseCSV toNumber rawData = []")
  case True
  with assms(1) show ?thesis by (auto simp: runAutomation_def Let_def)
next
  case False
  then have pre: "username config \<noteq> []" "password \<noteq> []" "parseCSV toNumber rawData \<noteq> []"
    and pre': "password' \<noteq> []"
    using assms(1) by simp_all
  show ?thesis
  proof (cases "chunkArray (parseCSV toNumber rawData) (batchSize config)")
    case None
    then show ?thesis
      using runAutomation_diverges [OF pre None] runAutomation_diverges [OF pre(1) pre' pre(3) None]
      by simp
  next
    case (Some batches)
    show ?thesis
      unfolding runAutomation_started [OF pre Some]
        runAutomation_started [OF pre(1) pre' pre(3) Some]
      using assms(2) by (simp add: loginEntries_verdict [OF assms(2)])
  qed
qed

theorem password_does_not_reach_the_log_witness:
  "((''user'' = []) = (''hunter2'' = []))
   \<and> loginSucceeds (username exampleConfig) ''user'' (simulationScenario exampleConfig) =
     loginSucceeds (username exampleConfig) ''hunter2'' (simulationScenario exampleConfig)
   \<and> runAutomation exampleNumber quietEnv exampleConfig ''user'' exampleCsv idleWorld =
     runAutomation exampleNumber quietEnv exampleConfig ''hunter2'' exampleCsv idleWorld
   \<and> map_option (\<lambda>w. length (logs w))
       (runAutomation exampleNumber quietEnv exampleConfig ''hunter2'' exampleCsv idleWorld) = Some 27"
proof -
  have h: "(''user'' = []) = (''hunter2'' = [])"
    "loginSucceeds (username exampleConfig) ''user'' (simulationScenario exampleConfig) =
     loginSucceeds (username exampleConfig) ''hunter2'' (simulationScenario exampleConfig)"
    by code_simp+
  have v: "map_option (\<lambda>w. length (logs w))
       (runAutomation exampleNumber quietEnv exampleConfig ''hunter2'' exampleCsv idleWorld) = Some 27"
    by code_simp
  from password_does_not_reach_the_log [OF h, of exampleNumber quietEnv exampleCsv idleWorld] h v
  show ?thesis by blast
qed

lemma startRun_part000_fields:
  "status (startRun_part000 w) = RUNNING" "stats (startRun_part000 w) = stats w"
  "logs (startRun_part000 w) =
     [\<lparr>level = SYSTEM, message = ''Initializing Automation Agent v1.0...'',
        step = ''INIT'', hasScreenshot = False\<rparr>,
      \<lparr>level = INFO, message = ''Target URL: '' @ URLS_LOGIN, step = ''INIT'',
        hasScreenshot = False\<rparr>]"
  "trace (startRun_part000 w) =
     trace w @ SetStatus RUNNING # SetLogs [] # map AddLog (logs (startRun_part000 w))"
  by (simp_all add: startRun_part000_def Let_def)

text \<open>
  \<^bold>\<open>C6.\<close> A start with an empty user name, an empty password or an empty parsed
  record set raises an alert and returns: the status, the statistics, the log and the
  stop flag are as they were, and the alert is the only effect of the call, so that the
  status is never set to \<open>RUNNING\<close>.
\<close>

theorem start_preconditions:
  assumes "username config = [] \<or> password = [] \<or> parseCSV toNumber rawData = []"
  shows "\<exists>w msg. runAutomation toNumber e config password rawData w0 = Some w
           \<and> status w = status w0 \<and> stats w = stats w0 \<and> logs w = logs w0
           \<and> stopRef w = stopRef w0 \<and> trace w = trace w0 @ [Alert msg]
           \<and> transitions [Alert msg] = []"
proof -
  obtain msg where "runAutomation toNumber e config password rawData w0 = Some (alert msg w0)"
    using assms runAutomation_alerts by blast
  then show ?thesis
    by (intro exI [of _ "alert msg w0"] exI [of _ msg]) simp
qed

theorem start_preconditions_witness:
  "parseCSV exampleNumber headerOnlyCsv = []
   \<and> (\<exists>w msg. runAutomation exampleNumber quietEnv exampleConfig ''user'' headerOnlyCsv idleWorld = Some w
          \<and> status w = status idleWorld \<and> stats w = stats idleWorld \<and> logs w = logs idleWorld
          \<and> stopRef w = stopRef idleWorld \<and> trace w = trace idleWorld @ [Alert msg]
          \<and> transitions [Alert msg] = [])
   \<and> map_option (\<lambda>w. (status w, transitions (trace w), map level (logs w)))
        (runAutomation exampleNumber quietEnv exampleConfig ''user'' headerOnlyCsv idleWorld)
      = Some (IDLE, [], [])"
proof -
  have h: "parseCSV exampleNumber headerOnlyCsv = []"
    by code_simp
  then have a: "username exampleConfig = [] \<or> ''user'' = []
      \<or> parseCSV exampleNumber headerOnlyCsv = []"
    by simp
  have v: "map_option (\<lambda>w. (status w, transitions (trace w), map level (logs w)))
        (runAutomation exampleNumber quietEnv exampleConfig ''user'' headerOnlyCsv idleWorld)
      = Some (IDLE, [], [])"
    by code_simp
  from start_preconditions [OF a, of quietEnv idleWorld] h v show ?thesis by blast
qed

text \<open>
  The earlier component of part\_000 has the same two alerts for an empty user name, an
  empty password and blank raw data. It parses inside the run, as its first phase: raw
  data that are not blank and give no record end the run in \<open>FAILED\<close>, with an entry
  of level \<open>ERROR\<close> tagged \<open>DATA\<close>.
\<close>

lemma start_checks_part000:
  "(username config = [] \<or> password = [] \<or> trim rawData = [] \<longrightarrow>
      (\<exists>w msg. runAutomation_part000 toNumber e config password rawData w0 = Some w
          \<and> status w = status w0 \<and> stats w = stats w0 \<and> logs w = logs w0
          \<and> stopRef w = stopRef w0 \<and> trace w = trace w0 @ [Alert msg]))
   \<and> (username config \<noteq> [] \<and> password \<noteq> [] \<and> trim rawData \<noteq> []
        \<and> parseCSV toNumber rawData = [] \<longrightarrow>
      (\<exists>w new. runAutomation_part000 toNumber e config password rawData w0 = Some w
          \<and> status w = FAILED \<and> stats w = stats w0
          \<and> trace w = trace w0 @ new \<and> transitions new = [RUNNING, FAILED]
          \<and> map (\<lambda>l. (level l, step l)) (logs w) =
               [(SYSTEM, ''INIT''), (INFO, ''INIT''), (ERROR, ''DATA'')]))"
proof (intro conjI impI)
  assume "username config = [] \<or> password = [] \<or> trim rawData = []"
  then have "\<exists>msg. runAutomation_part000 toNumber e config password rawData w0 = Some (alert msg w0)"
    by (auto simp: runAutomation_part000_def)
  then obtain msg where
    "runAutomation_part000 toNumber e config password rawData w0 = Some (alert msg w0)" ..
  then show "\<exists>w msg. runAutomation_part000 toNumber e config password rawData w0 = Some w
          \<and> status w = status w0 \<and> stats w = stats w0 \<and> logs w = logs w0
          \<and> stopRef w = stopRef w0 \<and> trace w = trace w0 @ [Alert msg]"
    by (intro exI [of _ "alert msg w0"] exI [of _ msg]) simp
next
  assume a: "username config \<noteq> [] \<and> password \<noteq> [] \<and> trim rawData \<noteq> []
        \<and> parseCSV toNumber rawData = []"
  let ?w = "setStatus FAILED
              (addLog ''Failed to parse CSV data. Check format.'' ERROR ''DATA'' False
                (startRun_part000 w0))"
  have run: "runAutomation_part000 toNumber e config password rawData w0 = Some ?w"
    using a by (simp add: runAutomation_part000_def Let_def)
  let ?new = "SetStatus RUNNING # SetLogs [] # map AddLog (logs (startRun_part000 w0))
       @ [AddLog \<lparr>level = ERROR, message = ''Failed to parse CSV data. Check format.'',
                  step = ''DATA'', hasScreenshot = False\<rparr>, SetStatus FAILED]"
  have "status ?w = FAILED" "stats ?w = stats w0" "trace ?w = trace w0 @ ?new"
    "transitions ?new = [RUNNING, FAILED]"
    "map (\<lambda>l. (level l, step l)) (logs ?w) =
               [(SYSTEM, ''INIT''), (INFO, ''INIT''), (ERROR, ''DATA'')]"
    by (simp_all add: startRun_part000_fields)
  with run show "\<exists>w new. runAutomation_part000 toNumber e config password rawData w0 = Some w
          \<and> status w = FAILED \<and> stats w = stats w0
          \<and> trace w = trace w0 @ new \<and> transitions new = [RUNNING, FAILED]
          \<and> map (\<lambda>l. (level l, step l)) (logs w) =
               [(SYSTEM, ''INIT''), (INFO, ''INIT''), (ERROR, ''DATA'')]"
    by (intro exI [of _ ?w] exI [of _ ?new] conjI)
qed

lemma start_checks_part000_example:
  "username exampleConfig \<noteq> [] \<and> ''user'' \<noteq> [] \<and> parseCSV exampleNumber headerOnlyCsv = []
   \<and> map_option (\<lambda>w. (status w, transitions (trace w), map level (logs w)))
        (runAutomation_part000 exampleNumber quietEnv exampleConfig ''user'' headerOnlyCsv idleWorld)
      = Some (FAILED, [RUNNING, FAILED], [SYSTEM, INFO, ERROR])"
  by code_simp

section \<open>Every run that reaches COMPLETED\<close>

lemma batchLoop_paused_trace:
  assumes "batchLoop e config batches i pt w = Inl w'"
  shows "\<exists>new. trace w' = trace w @ new \<and> transitions new = [PAUSED]"
  using assms
proof (induction e config batches i pt w rule: batchLoop.induct)
  case (1 e config batches i pt w)
  have lt: "i < length batches"
    using "1.prems" by (cases "i < length batches") (simp_all add: batchLoop_done)
  show ?case
  proof (cases "stopRef w")
    case True
    with lt "1.prems"
    have "w' = setStatus PAUSED (addLog ''Job stopped by user.'' WARNING ''STOP'' False w)"
      by (simp add: batchLoop_stop)
    then show ?thesis
      by (intro exI [of _ "[AddLog \<lparr>level = WARNING, message = ''Job stopped by user.'',
            step = ''STOP'', hasScreenshot = False\<rparr>, SetStatus PAUSED]"]) simp
  next
    case False
    let ?w = "batchPass e config batches i pt w"
    have "batchLoop e config batches (i + 1) (pt + length (batches ! i)) ?w = Inl w'"
      using "1.prems" lt False by (simp add: batchLoop_pass)
    from "1.IH" [OF lt False this] obtain new where
      new: "trace w' = trace ?w @ new" "transitions new = [PAUSED]"
      by blast
    obtain pass where pass: "trace ?w = trace w @ pass" "transitions pass = []"
      by (simp add: batchPass_fields(5))
    show ?thesis
      by (rule exI [of _ "pass @ new"]) (simp add: new pass)
  qed
qed

text \<open>
  Whatever the clicks on Stop: when a run has set the status to \<open>COMPLETED\<close>, the
  statistics it ends with account for every record and every batch.
\<close>

lemma completed_run_stats:
  assumes "runAutomation toNumber e config password rawData w0 = Some w"
    "trace w = trace w0 @ new" "COMPLETED \<in> set (transitions new)"
  shows "successCount (stats w) + errorCount (stats w) = processedRecords (stats w)
       \<and> processedRecords (stats w) = totalRecords (stats w)
       \<and> totalRecords (stats w) = length (parseCSV toNumber rawData)
       \<and> batchesCompleted (stats w) = batchesTotal (stats w)"
proof (cases "username config = [] \<or> password = [] \<or> parseCSV toNumber rawData = []")
  case True
  then obtain msg where "runAutomation toNumber e config password rawData w0 = Some (alert msg w0)"
    using runAutomation_alerts by blast
  with assms(1) have "w = alert msg w0" by simp
  with assms(2) have "new = [Alert msg]" by simp
  with assms(3) show ?thesis by simp
next
  case False
  then have pre: "username config \<noteq> []" "password \<noteq> []" "parseCSV toNumber rawData \<noteq> []"
    by simp_all
  obtain batches where batches:
    "chunkArray (parseCSV toNumber rawData) (batchSize config) = Some batches"
    using runAutomation_diverges [OF pre, where e = e] assms(1)
    by (cases "chunkArray (parseCSV toNumber rawData) (batchSize config)") auto
  define w4 where "w4 = awaiting e 0
     (appendLogs (loginEntries (username config) password (simulationScenario config))
       (call CallLogin (initStats config (parseCSV toNumber rawData) batches (startRun w0))))"
  define w5 where "w5 = awaiting e 1 (appendLogs navigationEntries (call CallNavigation w4))"
  obtain pre4 where pre4: "trace w4 = trace w0 @ pre4" "transitions pre4 = [RUNNING]"
    unfolding w4_def
    using loop_entry(6) [where e = e and ini = w0 and config = config and password = password
        and parsedData = "parseCSV toNumber rawData" and batches = batches]
    by auto
  obtain pre5 where pre5: "trace w5 = trace w0 @ pre5" "transitions pre5 = [RUNNING]"
    unfolding w5_def w4_def
    using loop_entry(5) [where e = e and ini = w0 and config = config and password = password
        and parsedData = "parseCSV toNumber rawData" and batches = batches]
    by auto
  have inv: "loopInvariant batches 0 0 (stats w5)"
    using loopInvariant_start [OF batches pre(3)]
    unfolding w5_def w4_def by (simp add: initialised(3))
  have total: "length (parseCSV toNumber rawData) = sum_list (map length batches)"
    using chunkArray_Some [OF batches pre(3)] by (metis length_concat)
  have run: "Some w =
     (if \<not> loginSucceeds (username config) password (simulationScenario config)
      then Some (setStatus FAILED w4)
      else if stopRef w4 then Some w4
      else case batchLoop e config batches 0 0 w5 of
             Inl w6 \<Rightarrow> Some w6
           | Inr w6 \<Rightarrow>
               Some (setStatus COMPLETED
                      (addLog ''All batches processed.'' SUCCESS ''DONE'' False w6)))"
    unfolding w5_def w4_def assms(1) [symmetric]
    by (simp only: runAutomation_started [OF pre batches] Let_def)
  show ?thesis
  proof (cases "loginSucceeds (username config) password (simulationScenario config)")
    case False
    with run have "w = setStatus FAILED w4" by simp
    with assms(2) pre4 have "new = pre4 @ [SetStatus FAILED]" by simp
    with assms(3) pre4(2) show ?thesis by simp
  next
    case login: True
    show ?thesis
    proof (cases "stopRef w4")
      case True
      with run login have "w = w4" by simp
      with assms(2) pre4 have "new = pre4" by simp
      with assms(3) pre4(2) show ?thesis by simp
    next
      case False
      show ?thesis
      proof (cases "batchLoop e config batches 0 0 w5")
        case (Inl w6)
        with run login False have "w = w6" by simp
        with batchLoop_paused_trace [OF Inl] obtain tl where
          tl: "trace w = trace w5 @ tl" "transitions tl = [PAUSED]" by blast
        with assms(2) pre5 have "new = pre5 @ tl" by simp
        moreover have "transitions (pre5 @ tl) = [RUNNING, PAUSED]"
          using pre5(2) tl(2) by simp
        ultimately show ?thesis using assms(3) by simp
      next
        case (Inr w6)
        with run login False
        have w: "w = setStatus COMPLETED (addLog ''All batches processed.'' SUCCESS ''DONE'' False w6)"
          by simp
        from batchLoop_completes [OF Inr inv]
        have "loopInvariant batches (length batches) (sum_list (map length batches)) (stats w6)"
          by blast
        with w total show ?thesis by (simp add: loopInvariant_def)
      qed
    qed
  qed
qed

text \<open>
  \<^bold>\<open>C7.\<close> A size of 0 or less has to make the split fail with
  \<open>InvalidConfiguration\<close>, and not hang. \<open>chunkArray\<close> has no check of its size: with
  two records and the size 0 the loop index never advances and the call does not
  return. The batch size field, once cleared, gives the size 0: a run started so, with a
  user name, a password and data rows, does not return either, since it never leaves
  \<open>chunkArray\<close>.
\<close>

theorem zero_batch_size_never_returns:
  "chunkArray [10, 20 :: nat] 0 = None
   \<and> batchSize zeroSizeConfig = 0
   \<and> username zeroSizeConfig \<noteq> [] \<and> ''user'' \<noteq> []
   \<and> parseCSV exampleNumber exampleCsv \<noteq> []
   \<and> runAutomation exampleNumber quietEnv zeroSizeConfig ''user'' exampleCsv idleWorld = None"
proof -
  have c: "chunkArray [10, 20 :: nat] 0 = None"
    by (rule chunkArray_never_returns) simp_all
  have h: "username zeroSizeConfig \<noteq> []" "''user'' \<noteq> []"
    "parseCSV exampleNumber exampleCsv \<noteq> []"
    by code_simp+
  have z: "batchSize zeroSizeConfig = 0"
    by (simp add: zeroSizeConfig_def)
  have "chunkArray (parseCSV exampleNumber exampleCsv) (batchSize zeroSizeConfig) = None"
    using h(3) by (intro chunkArray_never_returns) (simp_all add: z)
  with h have "runAutomation exampleNumber quietEnv zeroSizeConfig ''user'' exampleCsv idleWorld = None"
    by (rule runAutomation_diverges)
  with c h z show ?thesis by simp
qed

end
